theory Spec2Isabelle
  imports Complex_Main "HOL-Library.Char_ord" "HOL-Library.List_Lexorder"
begin

section \<open>Python values and exceptions\<close>

text \<open>
  The tools are Python scripts that keep their records in JSON files. A value produced
  by \<^verbatim>\<open>json.loads\<close> is a \<open>json\<close>: Python's \<^verbatim>\<open>None\<close>, \<^verbatim>\<open>bool\<close>, unbounded
  \<^verbatim>\<open>int\<close>, \<^verbatim>\<open>float\<close>, \<^verbatim>\<open>str\<close>, \<^verbatim>\<open>list\<close> and \<^verbatim>\<open>dict\<close> (an association list in
  insertion order; the keys of a parsed object are distinct). A float is a finite
  value (kept as the exact rational it denotes) or one of the three special values
  that \<^verbatim>\<open>json.loads\<close> accepts as \<^verbatim>\<open>NaN\<close>, \<^verbatim>\<open>Infinity\<close> and \<^verbatim>\<open>-Infinity\<close>.
\<close>

datatype pyfloat = Finite rat | NaN | PosInf | NegInf

datatype json =
    JNull
  | JBool bool
  | JInt int
  | JFloat pyfloat
  | JStr string
  | JList "json list"
  | JObj "(string \<times> json) list"

text \<open>
  The exceptions the sources raise, catch or let through. \<open>JSONDecodeError\<close> and
  \<open>UnicodeDecodeError\<close> are subclasses of \<open>ValueError\<close> in Python, but every handler in
  these sources names the classes it catches, so the classes are kept apart here and
  each handler lists what it catches.
\<close>

datatype exn =
    OSError
  | JSONDecodeError
  | UnicodeDecodeError
  | ValueError
  | OverflowError
  | TypeError
  | KeyError
  | IndexError
  | ZeroDivisionError
  | KeyboardInterrupt
  | SystemExit int

text \<open>
  How a call ends: it returns, it raises, or the process is killed while it runs (no
  handler and no \<^verbatim>\<open>finally\<close> block runs then).
\<close>

datatype 'a outcome = Returned 'a | Raised exn | Killed

section \<open>Files\<close>

text \<open>
  A path is a directory and a file name (\<^verbatim>\<open>path.parent\<close>, \<^verbatim>\<open>path.name\<close>).

  The programs only ever ask three things of a file's bytes: do they decode as UTF-8,
  is the decoded text blank, and what does \<^verbatim>\<open>json.loads\<close> make of it. A text is therefore
  either \<open>Doc j\<close>, the text of a JSON document, identified with the value \<open>j\<close> that
  \<^verbatim>\<open>json.loads\<close> yields for it and that \<^verbatim>\<open>json.dumps\<close> writes for \<open>j\<close> (with or without
  the trailing newline some of the tools add), or \<open>Junk s\<close>, the raw text \<open>s\<close> of a file
  that \<^verbatim>\<open>json.loads\<close> rejects (the empty file is \<open>Junk []\<close>). Bytes that are not UTF-8
  are \<open>Undecodable\<close>.
\<close>

datatype path = Path (parent: string) (name: string)

datatype ftext = Doc json | Junk string

datatype content = Text ftext | Undecodable string

type_synonym fs = "path \<Rightarrow> content option"

definition json_dumps :: "json \<Rightarrow> ftext" where
  "json_dumps j = Doc j"

definition json_loads :: "ftext \<Rightarrow> json outcome" where
  "json_loads t = (case t of Doc j \<Rightarrow> Returned j | Junk s \<Rightarrow> Raised JSONDecodeError)"

text \<open>
  \<^verbatim>\<open>str.isspace\<close> on the ASCII range: tab, line feed, vertical tab, form feed, carriage
  return, the four separators 0x1C..0x1F and the space.
\<close>

definition is_space :: "char \<Rightarrow> bool" where
  "is_space c = (let n = (of_char c :: nat) in (9 \<le> n \<and> n \<le> 13) \<or> (28 \<le> n \<and> n \<le> 32))"

definition strip :: "string \<Rightarrow> string" where
  "strip s = rev (dropWhile is_space (rev (dropWhile is_space s)))"

text \<open>The text left by \<^verbatim>\<open>raw.strip()\<close> is empty: only a file without a document can be blank.\<close>

definition blank :: "ftext \<Rightarrow> bool" where
  "blank t = (case t of Doc j \<Rightarrow> False | Junk s \<Rightarrow> strip s = [])"

text \<open>
  \<^verbatim>\<open>Path.read_text(encoding="utf-8")\<close> and \<^verbatim>\<open>open(..., "r")\<close> followed by a read. The
  environment decides which existing paths cannot be read (a directory, a permission
  error): \<open>unreadable\<close>.
\<close>

definition read_text :: "(path \<Rightarrow> bool) \<Rightarrow> fs \<Rightarrow> path \<Rightarrow> ftext outcome" where
  "read_text unreadable fs p =
     (if unreadable p then Raised OSError
      else case fs p of
             None \<Rightarrow> Raised OSError
           | Some (Undecodable b) \<Rightarrow> Raised UnicodeDecodeError
           | Some (Text t) \<Rightarrow> Returned t)"

text \<open>\<^verbatim>\<open>dict.get(key)\<close> on a parsed object.\<close>

definition dict_get :: "(string \<times> json) list \<Rightarrow> string \<Rightarrow> json option" where
  "dict_get d k = map_of d k"

subsection \<open>Writing: faults, temporary files, rename\<close>

text \<open>
  What can go wrong while a file is written is chosen by the environment:
  \<^item> \<open>MkstempFails\<close>: \<^verbatim>\<open>tempfile.mkstemp\<close> raises \<open>OSError\<close>;
  \<^item> \<open>WriteFails e c\<close>: the write, flush or fsync raises \<open>e\<close> when the file being
    written holds \<open>c\<close> (whatever prefix of the text had reached it);
  \<^item> \<open>ReplaceFails\<close>: the rename raises \<open>OSError\<close>;
  \<^item> \<open>KilledWriting c\<close>, \<open>KilledBeforeReplace\<close>: the process is killed, no handler runs,
    and the file being written holds \<open>c\<close>, or the temporary file is complete.
  A killed process leaves the disk as any observer would have seen it at that moment,
  so the final states over all faults are also the observable intermediate states.
  \<open>names\<close> are the random names \<^verbatim>\<open>mkstemp\<close> tries in turn; \<open>unlink_fails\<close> says whether
  removing the temporary file raises \<open>OSError\<close>.
\<close>

datatype fault =
    NoFault
  | MkstempFails
  | WriteFails exn content
  | ReplaceFails
  | KilledWriting content
  | KilledBeforeReplace

record wenv =
  names :: "string list"
  fault :: fault
  unlink_fails :: bool

text \<open>
  \<^verbatim>\<open>tempfile.mkstemp(dir=..., suffix=".tmp")\<close>: the first candidate name that does not
  exist yet is created (exclusively) as an empty file; \<open>None\<close> stands for the \<open>OSError\<close>.
\<close>

definition tmp_candidates :: "wenv \<Rightarrow> string \<Rightarrow> path list" where
  "tmp_candidates w dir = map (\<lambda>n. Path dir (''tmp'' @ n @ ''.tmp'')) (names w)"

definition mkstemp :: "wenv \<Rightarrow> string \<Rightarrow> fs \<Rightarrow> path option" where
  "mkstemp w dir fs =
     (if fault w = MkstempFails then None
      else find (\<lambda>p. fs p = None) (tmp_candidates w dir))"

text \<open>\<^verbatim>\<open>os.replace(src, dst)\<close>: one atomic step; renaming a file onto itself changes nothing.\<close>

definition os_replace :: "path \<Rightarrow> path \<Rightarrow> fs \<Rightarrow> fs" where
  "os_replace src dst fs = (if src = dst then fs else (fs(dst := fs src))(src := None))"

text \<open>
  The cleanup of both atomic writers: unlink the temporary file and swallow an
  \<open>OSError\<close> from the unlink itself (\<^verbatim>\<open>contextlib.suppress(OSError)\<close> in one,
  \<^verbatim>\<open>except OSError: pass\<close> in the other).
\<close>

definition unlink_suppressed :: "wenv \<Rightarrow> path \<Rightarrow> fs \<Rightarrow> fs" where
  "unlink_suppressed w p fs = (if unlink_fails w then fs else fs(p := None))"

section \<open>pebbles.py\<close>

datatype Pebble = Pebble (pebble_text: string) (pebble_timestamp: string)

text \<open>\<^verbatim>\<open>dataclasses.asdict\<close> of a pebble.\<close>

definition asdict :: "Pebble \<Rightarrow> json" where
  "asdict p = JObj [(''text'', JStr (pebble_text p)), (''timestamp'', JStr (pebble_timestamp p))]"

text \<open>The test \<^verbatim>\<open>_load\<close> applies to every entry of the list before it keeps it.\<close>

fun is_str :: "json option \<Rightarrow> bool" where
  "is_str (Some (JStr s)) = True"
| "is_str _ = False"

fun entry_ok :: "json \<Rightarrow> bool" where
  "entry_ok (JObj d) = (is_str (dict_get d ''text'') \<and> is_str (dict_get d ''timestamp''))"
| "entry_ok _ = False"

fun str_item :: "json \<Rightarrow> string \<Rightarrow> string" where
  "str_item (JObj d) k = (case dict_get d k of Some (JStr s) \<Rightarrow> s | _ \<Rightarrow> [])"
| "str_item _ k = []"

fun load_entries :: "json list \<Rightarrow> Pebble list \<Rightarrow> Pebble list" where
  "load_entries [] pebbles = pebbles"
| "load_entries (entry # rest) pebbles =
     (if entry_ok entry
      then load_entries rest (pebbles @ [Pebble (str_item entry ''text'') (str_item entry ''timestamp'')])
      else load_entries rest pebbles)"

text \<open>
  \<^verbatim>\<open>_load\<close>: \<^verbatim>\<open>_die\<close> raises \<open>SystemExit(1)\<close>. Only \<open>OSError\<close> is caught around the read, so
  a \<open>UnicodeDecodeError\<close> leaves the function as it is.
\<close>

definition pebbles_load :: "(path \<Rightarrow> bool) \<Rightarrow> path \<Rightarrow> fs \<Rightarrow> Pebble list outcome" where
  "pebbles_load unreadable path fs =
     (if fs path = None then Returned []
      else case read_text unreadable fs path of
             Raised e \<Rightarrow> (if e = OSError then Raised (SystemExit 1) else Raised e)
           | Killed \<Rightarrow> Killed
           | Returned raw \<Rightarrow>
               if blank raw then Returned []
               else (case json_loads raw of
                       Raised e \<Rightarrow> (if e = JSONDecodeError then Raised (SystemExit 1) else Raised e)
                     | Killed \<Rightarrow> Killed
                     | Returned (JList data) \<Rightarrow> Returned (load_entries data [])
                     | Returned other \<Rightarrow> Raised (SystemExit 1)))"

text \<open>
  \<^verbatim>\<open>_save\<close>: the payload goes to a fresh temporary file next to the target, which then
  replaces the target; the \<^verbatim>\<open>finally\<close> block removes the temporary file unless
  \<^verbatim>\<open>succeeded\<close> was set, and the exception goes on to the caller.
\<close>

definition pebbles_save :: "wenv \<Rightarrow> path \<Rightarrow> Pebble list \<Rightarrow> fs \<Rightarrow> unit outcome \<times> fs" where
  "pebbles_save w path pebbles fs =
     (let payload = json_dumps (JList (map asdict pebbles)) in
      case mkstemp w (parent path) fs of
        None \<Rightarrow> (Raised OSError, fs)
      | Some tmp_path \<Rightarrow>
          (let fs1 = fs(tmp_path \<mapsto> Text (Junk [])) in
           case fault w of
             WriteFails e c \<Rightarrow> (Raised e, unlink_suppressed w tmp_path (fs1(tmp_path \<mapsto> c)))
           | KilledWriting c \<Rightarrow> (Killed, fs1(tmp_path \<mapsto> c))
           | KilledBeforeReplace \<Rightarrow> (Killed, fs1(tmp_path \<mapsto> Text payload))
           | ReplaceFails \<Rightarrow>
               (Raised OSError, unlink_suppressed w tmp_path (fs1(tmp_path \<mapsto> Text payload)))
           | _ \<Rightarrow> (Returned (), os_replace tmp_path path (fs1(tmp_path \<mapsto> Text payload)))))"

section \<open>capsule.py and memory\_jar.py\<close>

text \<open>
  Both tools write their file in place: \<^verbatim>\<open>Path.write_text\<close> and \<^verbatim>\<open>open(..., "w")\<close>
  truncate the target and then write into it. Of the faults only those of the write
  itself apply: there is no temporary file and no rename.
\<close>

definition write_in_place :: "fault \<Rightarrow> path \<Rightarrow> ftext \<Rightarrow> fs \<Rightarrow> unit outcome \<times> fs" where
  "write_in_place f path payload fs =
     (case f of
        WriteFails e c \<Rightarrow> (Raised e, fs(path \<mapsto> c))
      | KilledWriting c \<Rightarrow> (Killed, fs(path \<mapsto> c))
      | _ \<Rightarrow> (Returned (), fs(path \<mapsto> Text payload)))"

definition DATA_FILE :: path where
  "DATA_FILE = Path ''.'' ''capsule_data.json''"


definition save_data :: "fault \<Rightarrow> json list \<Rightarrow> fs \<Rightarrow> unit outcome \<times> fs" where
  "save_data f capsules fs = write_in_place f DATA_FILE (json_dumps (JList capsules)) fs"


definition save_jar :: "fault \<Rightarrow> path \<Rightarrow> json \<Rightarrow> fs \<Rightarrow> unit outcome \<times> fs" where
  "save_jar f JAR_FILE memories fs = write_in_place f JAR_FILE (json_dumps memories) fs"

section \<open>commit\_your\_day.py: records and their JSON form\<close>

definition SCHEMA_VERSION :: string where "SCHEMA_VERSION = ''1.0''"
definition BACKUP_SUFFIX :: string where "BACKUP_SUFFIX = ''.bak''"
definition MAX_BACKUPS :: nat where "MAX_BACKUPS = 3"
definition MOOD_MIN :: int where "MOOD_MIN = - 2"
definition MOOD_MAX :: int where "MOOD_MAX = 2"
definition MOOD_DEFAULT :: int where "MOOD_DEFAULT = 0"
definition ENERGY_MIN :: int where "ENERGY_MIN = 1"
definition ENERGY_MAX :: int where "ENERGY_MAX = 5"
definition ENERGY_DEFAULT :: int where "ENERGY_DEFAULT = 3"

record LifeCommit =
  commit_id :: string
  timestamp :: string
  commit_date :: string
  commit_type :: string
  message :: string
  scope :: string
  details :: string
  tags :: "string list"
  mood_score :: int
  energy_score :: int

record CommitStore =
  version :: string
  created_at :: string
  commits :: "LifeCommit list"

text \<open>Decimal digits, as \<^verbatim>\<open>str(n)\<close> and an f-string print an integer.\<close>

definition digit_char :: "nat \<Rightarrow> char" where
  "digit_char n = ''0123456789'' ! n"

function show_nat :: "nat \<Rightarrow> string" where
  "show_nat n = (if n < 10 then [digit_char n] else show_nat (n div 10) @ [digit_char (n mod 10)])"
  by pat_completeness auto
termination
  by (relation "measure id") auto

definition show_int :: "int \<Rightarrow> string" where
  "show_int i = (if i < 0 then CHR ''-'' # show_nat (nat (- i)) else show_nat (nat i))"

text \<open>
  \<^verbatim>\<open>str(x)\<close> of a parsed value. A string is itself; \<^verbatim>\<open>None\<close>, booleans and integers
  print as Python prints them. What Python prints for a float, a list or a dict is not
  reconstructed here: it is the parameter \<open>repr\<close>.
\<close>

fun py_str :: "(json \<Rightarrow> string) \<Rightarrow> json \<Rightarrow> string" where
  "py_str repr (JStr s) = s"
| "py_str repr JNull = ''None''"
| "py_str repr (JBool b) = (if b then ''True'' else ''False'')"
| "py_str repr (JInt i) = show_int i"
| "py_str repr j = repr j"

text \<open>
  \<^verbatim>\<open>int(x) if isinstance(x, (int, float)) else default\<close>: \<^verbatim>\<open>bool\<close> is a subclass of
  \<^verbatim>\<open>int\<close>; a finite float is truncated towards zero; \<^verbatim>\<open>int\<close> of NaN raises
  \<open>ValueError\<close> and of an infinity \<open>OverflowError\<close>.
\<close>

definition trunc :: "rat \<Rightarrow> int" where
  "trunc q = (if q < 0 then - \<lfloor>- q\<rfloor> else \<lfloor>q\<rfloor>)"

fun int_or_default :: "json option \<Rightarrow> int \<Rightarrow> int outcome" where
  "int_or_default (Some (JInt i)) dflt = Returned i"
| "int_or_default (Some (JBool b)) dflt = Returned (if b then 1 else 0)"
| "int_or_default (Some (JFloat (Finite q))) dflt = Returned (trunc q)"
| "int_or_default (Some (JFloat NaN)) dflt = Raised ValueError"
| "int_or_default (Some (JFloat PosInf)) dflt = Raised OverflowError"
| "int_or_default (Some (JFloat NegInf)) dflt = Raised OverflowError"
| "int_or_default (Some other) dflt = Returned dflt"
| "int_or_default None dflt = Returned dflt"

text \<open>\<^verbatim>\<open>str(data.get(key, default))\<close>.\<close>

definition str_or_default :: "(json \<Rightarrow> string) \<Rightarrow> (string \<times> json) list \<Rightarrow> string \<Rightarrow> string \<Rightarrow> string" where
  "str_or_default repr data k dflt = (case dict_get data k of None \<Rightarrow> dflt | Some v \<Rightarrow> py_str repr v)"

definition LifeCommit_to_dict :: "LifeCommit \<Rightarrow> json" where
  "LifeCommit_to_dict c = JObj
     [(''id'', JStr (commit_id c)),
      (''timestamp'', JStr (timestamp c)),
      (''date'', JStr (commit_date c)),
      (''type'', JStr (commit_type c)),
      (''scope'', JStr (scope c)),
      (''message'', JStr (message c)),
      (''details'', JStr (details c)),
      (''tags'', JList (map JStr (tags c))),
      (''mood_score'', JInt (mood_score c)),
      (''energy_score'', JInt (energy_score c))]"

definition LifeCommit_from_dict :: "(json \<Rightarrow> string) \<Rightarrow> (string \<times> json) list \<Rightarrow> LifeCommit outcome" where
  "LifeCommit_from_dict repr data =
     (let tags_raw = (case dict_get data ''tags'' of None \<Rightarrow> JList [] | Some v \<Rightarrow> v);
          tgs = (case tags_raw of JList ts \<Rightarrow> map (py_str repr) ts | _ \<Rightarrow> [])
      in case int_or_default (dict_get data ''mood_score'') MOOD_DEFAULT of
           Raised e \<Rightarrow> Raised e
         | Killed \<Rightarrow> Killed
         | Returned mood \<Rightarrow>
             (case int_or_default (dict_get data ''energy_score'') ENERGY_DEFAULT of
                Raised e \<Rightarrow> Raised e
              | Killed \<Rightarrow> Killed
              | Returned energy \<Rightarrow>
                  Returned \<lparr>commit_id = str_or_default repr data ''id'' [],
                            timestamp = str_or_default repr data ''timestamp'' [],
                            commit_date = str_or_default repr data ''date'' [],
                            commit_type = str_or_default repr data ''type'' ''feat'',
                            message = str_or_default repr data ''message'' [],
                            scope = str_or_default repr data ''scope'' ''life'',
                            details = str_or_default repr data ''details'' [],
                            tags = tgs,
                            mood_score = mood,
                            energy_score = energy\<rparr>))"

definition CommitStore_to_dict :: "CommitStore \<Rightarrow> json" where
  "CommitStore_to_dict st = JObj
     [(''version'', JStr (version st)),
      (''created_at'', JStr (created_at st)),
      (''commits'', JList (map LifeCommit_to_dict (commits st)))]"

text \<open>
  The list comprehension of \<^verbatim>\<open>CommitStore.from_dict\<close>: entries that are not dicts are
  skipped, and the first entry whose conversion raises ends the whole comprehension.
\<close>

fun commits_from :: "(json \<Rightarrow> string) \<Rightarrow> json list \<Rightarrow> LifeCommit list outcome" where
  "commits_from repr [] = Returned []"
| "commits_from repr (JObj entry # rest) =
     (case LifeCommit_from_dict repr entry of
        Raised e \<Rightarrow> Raised e
      | Killed \<Rightarrow> Killed
      | Returned c \<Rightarrow>
          (case commits_from repr rest of
             Raised e \<Rightarrow> Raised e
           | Killed \<Rightarrow> Killed
           | Returned cs \<Rightarrow> Returned (c # cs)))"
| "commits_from repr (other # rest) = commits_from repr rest"

definition CommitStore_from_dict :: "(json \<Rightarrow> string) \<Rightarrow> (string \<times> json) list \<Rightarrow> CommitStore outcome" where
  "CommitStore_from_dict repr data =
     (let commits_raw = (case dict_get data ''commits'' of None \<Rightarrow> JList [] | Some v \<Rightarrow> v)
      in case (case commits_raw of JList entries \<Rightarrow> commits_from repr entries | _ \<Rightarrow> Returned []) of
           Raised e \<Rightarrow> Raised e
         | Killed \<Rightarrow> Killed
         | Returned cs \<Rightarrow>
             Returned \<lparr>version = str_or_default repr data ''version'' SCHEMA_VERSION,
                       created_at = str_or_default repr data ''created_at'' [],
                       commits = cs\<rparr>)"

section \<open>commit\_your\_day.py: persistence\<close>

text \<open>
  What the environment supplies to one run: which paths cannot be read, Python's
  \<^verbatim>\<open>repr\<close>, the circumstances of the atomic write, whether the forensic copy fails, and
  the clock (\<^verbatim>\<open>datetime.now(tz=timezone.utc).isoformat()\<close>).
\<close>

record env =
  unreadable :: "path \<Rightarrow> bool"
  py_repr :: "json \<Rightarrow> string"
  wr :: wenv
  copy_fails :: bool
  now_iso :: string

definition new_store :: "env \<Rightarrow> CommitStore" where
  "new_store env = \<lparr>version = SCHEMA_VERSION, created_at = now_iso env, commits = []\<rparr>"

definition backup_path :: "path \<Rightarrow> nat \<Rightarrow> path" where
  "backup_path path generation = Path (parent path) (name path @ BACKUP_SUFFIX @ show_nat generation)"

definition corrupted_path :: "path \<Rightarrow> path" where
  "corrupted_path path = Path (parent path) (name path @ ''.corrupted'')"

text \<open>
  \<^verbatim>\<open>_write_atomic_json\<close>: \<^verbatim>\<open>mkstemp\<close> runs before the \<^verbatim>\<open>try\<close>, so its failure is not
  followed by a cleanup; everything after it is under \<^verbatim>\<open>except BaseException\<close>, which
  unlinks the temporary file and re-raises.
\<close>

definition write_atomic_json :: "wenv \<Rightarrow> path \<Rightarrow> json \<Rightarrow> fs \<Rightarrow> unit outcome \<times> fs" where
  "write_atomic_json w path data fs =
     (let serialized = json_dumps data in
      case mkstemp w (parent path) fs of
        None \<Rightarrow> (Raised OSError, fs)
      | Some tmp_path \<Rightarrow>
          (let fs1 = fs(tmp_path \<mapsto> Text (Junk [])) in
           case fault w of
             WriteFails e c \<Rightarrow> (Raised e, unlink_suppressed w tmp_path (fs1(tmp_path \<mapsto> c)))
           | KilledWriting c \<Rightarrow> (Killed, fs1(tmp_path \<mapsto> c))
           | KilledBeforeReplace \<Rightarrow> (Killed, fs1(tmp_path \<mapsto> Text serialized))
           | ReplaceFails \<Rightarrow>
               (Raised OSError, unlink_suppressed w tmp_path (fs1(tmp_path \<mapsto> Text serialized)))
           | _ \<Rightarrow> (Returned (), os_replace tmp_path path (fs1(tmp_path \<mapsto> Text serialized)))))"

text \<open>
  \<^verbatim>\<open>_rotate_backups\<close>: generations 2 and 1 move up by one (\<^verbatim>\<open>shutil.move\<close> is a
  rename here), then the live file is copied to generation 1.
\<close>

fun rotate_gens :: "path \<Rightarrow> nat list \<Rightarrow> fs \<Rightarrow> fs" where
  "rotate_gens path [] fs = fs"
| "rotate_gens path (gen # gens) fs =
     (let src = backup_path path gen; dst = backup_path path (gen + 1)
      in rotate_gens path gens (if fs src \<noteq> None then os_replace src dst fs else fs))"

definition rotate_backups :: "path \<Rightarrow> fs \<Rightarrow> fs" where
  "rotate_backups path fs =
     (let fs1 = rotate_gens path (rev [1 ..< MAX_BACKUPS]) fs
      in if fs1 path \<noteq> None then fs1(backup_path path 1 := fs1 path) else fs1)"

definition save_store :: "env \<Rightarrow> path \<Rightarrow> CommitStore \<Rightarrow> fs \<Rightarrow> unit outcome \<times> fs" where
  "save_store env path store fs =
     write_atomic_json (wr env) path (CommitStore_to_dict store) (rotate_backups path fs)"

text \<open>
  \<^verbatim>\<open>_load_store\<close>. The handler catches \<open>JSONDecodeError\<close>, \<open>OSError\<close>, \<open>KeyError\<close> and
  \<open>TypeError\<close>; for the primary file it then copies the file to the \<^verbatim>\<open>.corrupted\<close>
  side-name (an \<open>OSError\<close> of the copy is suppressed; a file that cannot be read cannot
  be copied either) and the loop goes on. A root that is not a dict only logs a
  warning and goes on.
\<close>

definition caught :: "exn \<Rightarrow> bool" where
  "caught e = (e = JSONDecodeError \<or> e = OSError \<or> e = KeyError \<or> e = TypeError)"

definition preserve_corrupt :: "env \<Rightarrow> path \<Rightarrow> path \<Rightarrow> fs \<Rightarrow> fs" where
  "preserve_corrupt env path candidate fs =
     (if candidate = path \<and> \<not> copy_fails env \<and> \<not> unreadable env candidate
      then fs(corrupted_path path := fs candidate) else fs)"

fun load_candidates :: "env \<Rightarrow> path \<Rightarrow> path list \<Rightarrow> fs \<Rightarrow> CommitStore outcome \<times> fs" where
  "load_candidates env path [] fs = (Returned (new_store env), fs)"
| "load_candidates env path (candidate # rest) fs =
     (if fs candidate = None then load_candidates env path rest fs
      else case read_text (unreadable env) fs candidate of
             Raised e \<Rightarrow>
               if caught e then load_candidates env path rest (preserve_corrupt env path candidate fs)
               else (Raised e, fs)
           | Killed \<Rightarrow> (Killed, fs)
           | Returned raw \<Rightarrow>
               (case json_loads raw of
                  Raised e \<Rightarrow>
                    if caught e then load_candidates env path rest (preserve_corrupt env path candidate fs)
                    else (Raised e, fs)
                | Killed \<Rightarrow> (Killed, fs)
                | Returned (JObj data) \<Rightarrow>
                    (case CommitStore_from_dict (py_repr env) data of
                       Raised e \<Rightarrow>
                         if caught e
                         then load_candidates env path rest (preserve_corrupt env path candidate fs)
                         else (Raised e, fs)
                     | Killed \<Rightarrow> (Killed, fs)
                     | Returned store \<Rightarrow>
                         if candidate \<noteq> path
                         then (case write_atomic_json (wr env) path (CommitStore_to_dict store) fs of
                                 (Returned u, fs') \<Rightarrow> (Returned store, fs')
                               | (Killed, fs') \<Rightarrow> (Killed, fs')
                               | (Raised e, fs') \<Rightarrow>
                                   if caught e
                                   then load_candidates env path rest (preserve_corrupt env path candidate fs')
                                   else (Raised e, fs'))
                         else (Returned store, fs))
                | Returned other \<Rightarrow> load_candidates env path rest fs))"

definition load_store :: "env \<Rightarrow> path \<Rightarrow> fs \<Rightarrow> CommitStore outcome \<times> fs" where
  "load_store env path fs =
     load_candidates env path (path # map (backup_path path) [1 ..< MAX_BACKUPS + 1]) fs"

section \<open>commit\_your\_day.py: dates\<close>

text \<open>
  \<^verbatim>\<open>datetime.date\<close>: a year from 1 to 9999, a month and a day of that month. The
  ordinal of a date is its day number in the proleptic Gregorian calendar, as
  \<^verbatim>\<open>date.toordinal\<close> computes it; the difference of two dates in days is the difference
  of their ordinals.
\<close>

datatype date = Date (year: nat) (month: nat) (day: nat)

definition is_leap :: "nat \<Rightarrow> bool" where
  "is_leap y = (y mod 4 = 0 \<and> (y mod 100 \<noteq> 0 \<or> y mod 400 = 0))"

definition days_in_month :: "nat \<Rightarrow> nat \<Rightarrow> nat" where
  "days_in_month y m =
     (if m = 2 then (if is_leap y then 29 else 28)
      else if m = 4 \<or> m = 6 \<or> m = 9 \<or> m = 11 then 30 else 31)"

definition valid_date :: "date \<Rightarrow> bool" where
  "valid_date d =
     (1 \<le> year d \<and> year d \<le> 9999 \<and> 1 \<le> month d \<and> month d \<le> 12 \<and>
      1 \<le> day d \<and> day d \<le> days_in_month (year d) (month d))"

definition days_before_year :: "nat \<Rightarrow> int" where
  "days_before_year y =
     (let p = int y - 1 in p * 365 + p div 4 - p div 100 + p div 400)"

definition DAYS_BEFORE_MONTH :: "nat list" where
  "DAYS_BEFORE_MONTH = [0, 0, 31, 59, 90, 120, 151, 181, 212, 243, 273, 304, 334]"

definition days_before_month :: "nat \<Rightarrow> nat \<Rightarrow> int" where
  "days_before_month y m =
     int (DAYS_BEFORE_MONTH ! m) + (if 2 < m \<and> is_leap y then 1 else 0)"

definition toordinal :: "date \<Rightarrow> int" where
  "toordinal d = days_before_year (year d) + days_before_month (year d) (month d) + int (day d)"

text \<open>\<^verbatim>\<open>date.isoformat()\<close>: \<^verbatim>\<open>%04d-%02d-%02d\<close>.\<close>

definition pad2 :: "nat \<Rightarrow> string" where
  "pad2 n = [digit_char (n div 10 mod 10), digit_char (n mod 10)]"

definition pad4 :: "nat \<Rightarrow> string" where
  "pad4 n = [digit_char (n div 1000 mod 10), digit_char (n div 100 mod 10),
             digit_char (n div 10 mod 10), digit_char (n mod 10)]"

definition isoformat :: "date \<Rightarrow> string" where
  "isoformat d = pad4 (year d) @ ''-'' @ pad2 (month d) @ ''-'' @ pad2 (day d)"

text \<open>
  \<^verbatim>\<open>datetime.strptime(s, "%Y-%m-%d").date()\<close> on ASCII text. The format is matched as
  the regular expression of \<^verbatim>\<open>_strptime\<close>: four digits, a dash, a month
  (\<^verbatim>\<open>1[0-2]|0[1-9]|[1-9]\<close>), a dash, a day (\<^verbatim>\<open>3[01]|[12]\d|0[1-9]|[1-9]| [1-9]\<close>, the
  first alternative that matches), and nothing may remain after the day. The month is
  followed by a dash, so at most one of its alternatives can be taken. A text that
  does not match, and a day the month does not have, raise \<open>ValueError\<close>.
\<close>

definition is_digit :: "char \<Rightarrow> bool" where
  "is_digit c = (c \<in> set ''0123456789'')"

definition is_digit19 :: "char \<Rightarrow> bool" where
  "is_digit19 c = (c \<in> set ''123456789'')"

definition digit_val :: "char \<Rightarrow> nat" where
  "digit_val c = of_char c - 48"

fun parse_month :: "string \<Rightarrow> (nat \<times> string) option" where
  "parse_month (a # b # c # rest) =
     (if a = CHR ''1'' \<and> b \<in> set ''012'' \<and> c = CHR ''-'' then Some (10 + digit_val b, rest)
      else if a = CHR ''0'' \<and> is_digit19 b \<and> c = CHR ''-'' then Some (digit_val b, rest)
      else if is_digit19 a \<and> b = CHR ''-'' then Some (digit_val a, c # rest)
      else None)"
| "parse_month [a, b] = (if is_digit19 a \<and> b = CHR ''-'' then Some (digit_val a, []) else None)"
| "parse_month other = None"

fun parse_day :: "string \<Rightarrow> (nat \<times> string) option" where
  "parse_day (a # b # rest) =
     (if a = CHR ''3'' \<and> b \<in> set ''01'' then Some (30 + digit_val b, rest)
      else if a \<in> set ''12'' \<and> is_digit b then Some (10 * digit_val a + digit_val b, rest)
      else if a = CHR ''0'' \<and> is_digit19 b then Some (digit_val b, rest)
      else if is_digit19 a then Some (digit_val a, b # rest)
      else if a = CHR '' '' \<and> is_digit19 b then Some (digit_val b, rest)
      else None)"
| "parse_day [a] = (if is_digit19 a then Some (digit_val a, []) else None)"
| "parse_day [] = None"

definition make_date :: "nat \<Rightarrow> nat \<Rightarrow> nat \<Rightarrow> date outcome" where
  "make_date y m d = (if valid_date (Date y m d) then Returned (Date y m d) else Raised ValueError)"

fun strptime :: "string \<Rightarrow> date outcome" where
  "strptime (y1 # y2 # y3 # y4 # dash # rest) =
     (if is_digit y1 \<and> is_digit y2 \<and> is_digit y3 \<and> is_digit y4 \<and> dash = CHR ''-''
      then (case parse_month rest of
              None \<Rightarrow> Raised ValueError
            | Some (m, rest') \<Rightarrow>
                (case parse_day rest' of
                   Some (d, []) \<Rightarrow>
                     make_date (1000 * digit_val y1 + 100 * digit_val y2 + 10 * digit_val y3 + digit_val y4) m d
                 | _ \<Rightarrow> Raised ValueError))
      else Raised ValueError)"
| "strptime other = Raised ValueError"

text \<open>
  \<^verbatim>\<open>d - timedelta(days=1)\<close>: the day before; before the first day of year 1 there is
  none and Python raises \<open>OverflowError\<close>.
\<close>

definition minus_one_day :: "date \<Rightarrow> date outcome" where
  "minus_one_day d =
     (if 1 < day d then Returned (Date (year d) (month d) (day d - 1))
      else if 1 < month d
           then Returned (Date (year d) (month d - 1) (days_in_month (year d) (month d - 1)))
      else if 1 < year d then Returned (Date (year d - 1) 12 31)
      else Raised OverflowError)"

section \<open>commit\_your\_day.py: aggregation\<close>

text \<open>
  \<^verbatim>\<open>_compute_streak\<close>. \<open>today\<close> is \<^verbatim>\<open>date.today()\<close>. The distinct date strings are
  sorted as strings, greatest first; the loop walks down that list while two
  neighbours parse as dates exactly one day apart.
\<close>

fun streak_loop :: "string list \<Rightarrow> int \<Rightarrow> int" where
  "streak_loop (prev_s # curr_s # rest) streak =
     (case strptime prev_s of
        Returned prev_d \<Rightarrow>
          (case strptime curr_s of
             Returned curr_d \<Rightarrow>
               if toordinal prev_d - toordinal curr_d = 1
               then streak_loop (curr_s # rest) (streak + 1)
               else streak
           | _ \<Rightarrow> streak)
      | _ \<Rightarrow> streak)"
| "streak_loop other streak = streak"

definition compute_streak :: "date \<Rightarrow> LifeCommit list \<Rightarrow> int outcome" where
  "compute_streak today cmts =
     (if cmts = [] then Returned 0
      else let unique_dates = rev (sort (remdups (map commit_date cmts)));
               today_str = isoformat today
           in case minus_one_day today of
                Raised e \<Rightarrow> Raised e
              | Killed \<Rightarrow> Killed
              | Returned y \<Rightarrow>
                  (let yesterday_str = isoformat y
                   in case unique_dates of
                        [] \<Rightarrow> Raised IndexError
                      | first # others \<Rightarrow>
                          if first \<noteq> today_str \<and> first \<noteq> yesterday_str then Returned 0
                          else Returned (streak_loop unique_dates 1)))"















section \<open>commit\_your\_day.py: creating a commit\<close>

text \<open>
  String helpers on ASCII text: \<^verbatim>\<open>str.lower\<close>, \<^verbatim>\<open>str.split()\<close> (on runs of
  whitespace), \<^verbatim>\<open>str.split(",")\<close> and \<^verbatim>\<open>str.strip(chars)\<close>.
\<close>

definition lower_char :: "char \<Rightarrow> char" where
  "lower_char c = (if CHR ''A'' \<le> c \<and> c \<le> CHR ''Z'' then char_of (of_char c + (32 :: nat)) else c)"

definition lower :: "string \<Rightarrow> string" where
  "lower s = map lower_char s"

fun split_ws_from :: "string \<Rightarrow> string \<Rightarrow> string list" where
  "split_ws_from [] word = (if word = [] then [] else [word])"
| "split_ws_from (c # cs) word =
     (if is_space c then (if word = [] then split_ws_from cs [] else word # split_ws_from cs [])
      else split_ws_from cs (word @ [c]))"

definition split_ws :: "string \<Rightarrow> string list" where
  "split_ws s = split_ws_from s []"

fun split_on_from :: "char \<Rightarrow> string \<Rightarrow> string \<Rightarrow> string list" where
  "split_on_from sep [] piece = [piece]"
| "split_on_from sep (c # cs) piece =
     (if c = sep then piece # split_on_from sep cs [] else split_on_from sep cs (piece @ [c]))"

definition split_on :: "char \<Rightarrow> string \<Rightarrow> string list" where
  "split_on sep s = split_on_from sep s []"

definition strip_chars :: "string \<Rightarrow> string \<Rightarrow> string" where
  "strip_chars chars s =
     rev (dropWhile (\<lambda>c. c \<in> set chars) (rev (dropWhile (\<lambda>c. c \<in> set chars) s)))"

definition TYPE_KEYWORDS :: "(string \<times> string) list" where
  "TYPE_KEYWORDS =
     [(''fixed'', ''fix''), (''repaired'', ''fix''), (''resolved'', ''fix''), (''debugged'', ''fix''),
      (''patched'', ''fix''),
      (''learned'', ''docs''), (''studied'', ''docs''), (''researched'', ''docs''),
      (''documented'', ''docs''), (''noted'', ''docs''),
      (''tried'', ''feat''), (''built'', ''feat''), (''created'', ''feat''), (''shipped'', ''feat''),
      (''launched'', ''feat''), (''finished'', ''feat''), (''completed'', ''feat''),
      (''started'', ''feat''), (''made'', ''feat''), (''added'', ''feat''),
      (''improved'', ''refactor''), (''optimized'', ''refactor''), (''refactored'', ''refactor''),
      (''restructured'', ''refactor''), (''simplified'', ''refactor''),
      (''cleaned'', ''chore''), (''organized'', ''chore''), (''maintained'', ''chore''),
      (''updated'', ''chore''),
      (''styled'', ''style''), (''designed'', ''style''), (''formatted'', ''style''),
      (''tested'', ''test''), (''verified'', ''test''), (''validated'', ''test'')]"

fun detect_in :: "string list \<Rightarrow> string" where
  "detect_in [] = ''feat''"
| "detect_in (word # words) =
     (case map_of TYPE_KEYWORDS (strip_chars ''.,!?;:'' word) of
        Some t \<Rightarrow> t
      | None \<Rightarrow> detect_in words)"

definition detect_commit_type :: "string \<Rightarrow> string" where
  "detect_commit_type msg = detect_in (split_ws (lower msg))"

text \<open>
  What the environment stamps on a new commit: \<^verbatim>\<open>str(uuid.uuid4())\<close>, the UTC time
  and \<^verbatim>\<open>date.today()\<close>.
\<close>

record stamps =
  uuid4 :: string
  now_utc_iso :: string
  date_today :: date

definition create_commit ::
  "stamps \<Rightarrow> string \<Rightarrow> string option \<Rightarrow> string \<Rightarrow> string \<Rightarrow> string list \<Rightarrow> int \<Rightarrow> int \<Rightarrow> LifeCommit" where
  "create_commit st msg ctype scp dtls tgs mood energy =
     (let resolved_type = (case ctype of
                             None \<Rightarrow> detect_commit_type msg
                           | Some t \<Rightarrow> if t = [] then detect_commit_type msg else t)
      in \<lparr>commit_id = uuid4 st,
          timestamp = now_utc_iso st,
          commit_date = isoformat (date_today st),
          commit_type = resolved_type,
          message = msg,
          scope = scp,
          details = dtls,
          tags = tgs,
          mood_score = max MOOD_MIN (min MOOD_MAX mood),
          energy_score = max ENERGY_MIN (min ENERGY_MAX energy)\<rparr>)"

text \<open>
  \<^verbatim>\<open>_prompt_int\<close>, from the answer typed at the prompt on: \<open>typed\<close> is what
  \<^verbatim>\<open>int(raw)\<close> made of it, \<open>None\<close> for its \<open>ValueError\<close>.
\<close>

definition prompt_int :: "int option \<Rightarrow> int \<Rightarrow> int \<Rightarrow> int \<Rightarrow> int" where
  "prompt_int typed dflt min_val max_val =
     (case typed of None \<Rightarrow> dflt | Some v \<Rightarrow> max min_val (min max_val v))"

text \<open>
  \<^verbatim>\<open>_cmd_quick_commit\<close>. The arguments are those of \<^verbatim>\<open>argparse\<close> (\<^verbatim>\<open>--mood\<close> and
  \<^verbatim>\<open>--energy\<close> are integers or absent). \<^verbatim>\<open>sys.exit(1)\<close> is \<open>SystemExit 1\<close>. What is
  printed is left out; the result is how the command ends and the disk it leaves.
\<close>

record args =
  arg_message :: "string option"
  arg_commit_type :: "string option"
  arg_scope :: "string option"
  arg_details :: "string option"
  arg_tags :: "string option"
  arg_mood :: "int option"
  arg_energy :: "int option"

definition or_else :: "string option \<Rightarrow> string \<Rightarrow> string" where
  "or_else v dflt = (case v of None \<Rightarrow> dflt | Some s \<Rightarrow> if s = [] then dflt else s)"

definition cmd_quick_commit :: "env \<Rightarrow> stamps \<Rightarrow> path \<Rightarrow> args \<Rightarrow> fs \<Rightarrow> unit outcome \<times> fs" where
  "cmd_quick_commit env st STORAGE_FILE a fs =
     (let message_raw = or_else (arg_message a) []
      in if strip message_raw = [] then (Raised (SystemExit 1), fs)
         else
           let scp = or_else (arg_scope a) ''life'';
               dtls = or_else (arg_details a) [];
               tgs = (case arg_tags a of
                        None \<Rightarrow> []
                      | Some tags_raw \<Rightarrow>
                          if tags_raw = [] then []
                          else map strip (filter (\<lambda>t. strip t \<noteq> []) (split_on (CHR '','') tags_raw)));
               mood = (case arg_mood a of None \<Rightarrow> MOOD_DEFAULT | Some v \<Rightarrow> v);
               energy = (case arg_energy a of None \<Rightarrow> ENERGY_DEFAULT | Some v \<Rightarrow> v)
           in if mood < MOOD_MIN \<or> MOOD_MAX < mood then (Raised (SystemExit 1), fs)
              else if energy < ENERGY_MIN \<or> ENERGY_MAX < energy then (Raised (SystemExit 1), fs)
              else
                let commit = create_commit st (strip message_raw) (arg_commit_type a) scp dtls tgs mood energy
                in case load_store env STORAGE_FILE fs of
                     (Raised e, fs1) \<Rightarrow> (Raised e, fs1)
                   | (Killed, fs1) \<Rightarrow> (Killed, fs1)
                   | (Returned store, fs1) \<Rightarrow>
                       (let store' = store\<lparr>commits := commits store @ [commit]\<rparr>
                        in case save_store env STORAGE_FILE store' fs1 of
                             (Raised e, fs2) \<Rightarrow> (Raised e, fs2)
                           | (Killed, fs2) \<Rightarrow> (Killed, fs2)
                           | (Returned u, fs2) \<Rightarrow>
                               (case compute_streak (date_today st) (commits store') of
                                  Raised e \<Rightarrow> (Raised e, fs2)
                                | Killed \<Rightarrow> (Killed, fs2)
                                | Returned streak \<Rightarrow> (Returned (), fs2))))"

section \<open>Predicates used to state the properties\<close>

text \<open>
  An entry of the pebbles file holds a pebble: it is an object whose \<^verbatim>\<open>text\<close> and
  \<^verbatim>\<open>timestamp\<close> are the strings of that pebble.
\<close>

fun holds_pebble :: "json \<Rightarrow> Pebble \<Rightarrow> bool" where
  "holds_pebble (JObj d) p =
     (dict_get d ''text'' = Some (JStr (pebble_text p)) \<and>
      dict_get d ''timestamp'' = Some (JStr (pebble_timestamp p)))"
| "holds_pebble other p = False"

text \<open>The exception a fault makes a write raise, if it makes it raise one.\<close>

definition raises :: "fault \<Rightarrow> exn option" where
  "raises f = (case f of
                 MkstempFails \<Rightarrow> Some OSError
               | WriteFails e c \<Rightarrow> Some e
               | ReplaceFails \<Rightarrow> Some OSError
               | _ \<Rightarrow> None)"

text \<open>
  What an atomic write of \<open>payload\<close> to \<open>path\<close> may do, by the way the call ended.
  Returned: no fault, and the new disk is the old one with the complete payload at
  the target. Raised: the exception is the fault's own (or \<^verbatim>\<open>mkstemp\<close> found no
  name), the target is untouched, and the disk is the old one, or differs from it at
  candidate temporary names only when the unlink failed. Killed: the target is
  untouched and only candidate temporary names can differ.
\<close>

definition atomic_write_ok :: "wenv \<Rightarrow> path \<Rightarrow> ftext \<Rightarrow> fs \<Rightarrow> unit outcome \<times> fs \<Rightarrow> bool" where
  "atomic_write_ok w path payload fs res =
     (case res of
        (Returned u, fs') \<Rightarrow> raises (fault w) = None \<and> fs' = fs(path \<mapsto> Text payload)
      | (Raised e, fs') \<Rightarrow>
          (mkstemp w (parent path) fs = None \<or> raises (fault w) = Some e) \<and>
          fs' path = fs path \<and>
          (if unlink_fails w
           then \<forall>p. p \<notin> set (tmp_candidates w (parent path)) \<longrightarrow> fs' p = fs p
           else fs' = fs)
      | (Killed, fs') \<Rightarrow>
          raises (fault w) = None \<and> fs' path = fs path \<and>
          (\<forall>p. p \<notin> set (tmp_candidates w (parent path)) \<longrightarrow> fs' p = fs p))"

text \<open>
  After a save the target holds what it held before, or the save returned and the
  target holds the complete payload.
\<close>

definition target_intact :: "path \<Rightarrow> ftext \<Rightarrow> fs \<Rightarrow> unit outcome \<times> fs \<Rightarrow> bool" where
  "target_intact path payload fs res =
     (snd res path = fs path \<or> (fst res = Returned () \<and> snd res path = Some (Text payload)))"

text \<open>
  The store a candidate file yields: the file holds a JSON object and
  \<^verbatim>\<open>CommitStore.from_dict\<close> builds a store from it.
\<close>

definition yields :: "env \<Rightarrow> fs \<Rightarrow> path \<Rightarrow> CommitStore option" where
  "yields env fs p =
     (case fs p of
        Some (Text (Doc (JObj data))) \<Rightarrow>
          (case CommitStore_from_dict (py_repr env) data of Returned st \<Rightarrow> Some st | _ \<Rightarrow> None)
      | _ \<Rightarrow> None)"

text \<open>
  A candidate that the loader passes over: it is missing, its text is rejected by
  \<^verbatim>\<open>json.loads\<close>, or it is a JSON document whose root is not an object.
\<close>

definition unusable :: "fs \<Rightarrow> path \<Rightarrow> bool" where
  "unusable fs p =
     (case fs p of
        None \<Rightarrow> True
      | Some (Text (Junk s)) \<Rightarrow> True
      | Some (Text (Doc (JObj data))) \<Rightarrow> False
      | Some (Text (Doc other)) \<Rightarrow> True
      | Some (Undecodable b) \<Rightarrow> False)"



text \<open>The first name \<^verbatim>\<open>mkstemp\<close> tries is free and is not the target itself.\<close>

definition temp_free :: "wenv \<Rightarrow> path \<Rightarrow> fs \<Rightarrow> bool" where
  "temp_free w path fs =
     (case tmp_candidates w (parent path) of [] \<Rightarrow> False | t # ts \<Rightarrow> fs t = None \<and> t \<noteq> path)"



text \<open>
  The streak as the specification words it. \<open>consecutive_run D e n\<close>: the days \<open>e\<close>,
  \<open>e - 1\<close>, ..., \<open>e - (n - 1)\<close> all belong to \<open>D\<close> and the day \<open>e - n\<close> does not, so that
  \<open>n\<close> is the length of the run of consecutive days of \<open>D\<close> that ends at \<open>e\<close>. Days are
  ordinals.
\<close>

definition consecutive_run :: "int set \<Rightarrow> int \<Rightarrow> nat \<Rightarrow> bool" where
  "consecutive_run D e n = ((\<forall>k<n. e - int k \<in> D) \<and> e - int n \<notin> D)"

text \<open>
  The day a commit date names, when \<^verbatim>\<open>strptime\<close> accepts it, and the set of the days
  of a list of commits.
\<close>

definition ordinal_of :: "string \<Rightarrow> int option" where
  "ordinal_of s =
     (case strptime s of Returned d \<Rightarrow> Some (toordinal d) | Raised e \<Rightarrow> None | Killed \<Rightarrow> None)"

definition commit_days :: "LifeCommit list \<Rightarrow> int set" where
  "commit_days cmts = set (List.map_filter ordinal_of (map commit_date cmts))"

text \<open>
  A commit date as \<^verbatim>\<open>date.isoformat()\<close> writes it: it parses, and printing the parsed
  date gives the same text back (four digits of year, two of month, two of day).
\<close>

definition iso_date :: "string \<Rightarrow> bool" where
  "iso_date s =
     (case strptime s of Returned d \<Rightarrow> isoformat d = s | Raised e \<Rightarrow> False | Killed \<Rightarrow> False)"

text \<open>
  How many times in a row, from the head of a list of days, the next day is exactly
  one less.
\<close>

fun run_down :: "int list \<Rightarrow> nat" where
  "run_down (a # b # rest) = (if a - b = 1 then Suc (run_down (b # rest)) else 0)"
| "run_down other = 0"

section \<open>Properties of pebbles.py\<close>

lemma load_entries_append: "load_entries es acc = acc @ load_entries es []"
proof (induction es arbitrary: acc)
  case Nil
  show ?case by simp
next
  case (Cons e es)
  show ?case
    using Cons.IH [of "acc @ [Pebble (str_item e ''text'') (str_item e ''timestamp'')]"]
          Cons.IH [of "[Pebble (str_item e ''text'') (str_item e ''timestamp'')]"]
          Cons.IH [of acc]
    by simp
qed

lemma is_str_cases: "is_str v \<Longrightarrow> \<exists>s. v = Some (JStr s)"
  by (cases v rule: is_str.cases) auto

lemma entry_ok_holds:
  assumes "entry_ok e"
  shows "holds_pebble e (Pebble (str_item e ''text'') (str_item e ''timestamp''))"
proof (cases e)
  case (JObj d)
  from assms JObj obtain s t where
    "dict_get d ''text'' = Some (JStr s)" "dict_get d ''timestamp'' = Some (JStr t)"
    using is_str_cases by fastforce
  then show ?thesis using JObj by simp
qed (use assms in simp_all)

lemma load_entries_filter: "list_all2 holds_pebble (filter entry_ok es) (load_entries es [])"
proof (induction es)
  case Nil
  show ?case by simp
next
  case (Cons e es)
  show ?case
  proof (cases "entry_ok e")
    case True
    have "load_entries (e # es) [] =
            Pebble (str_item e ''text'') (str_item e ''timestamp'') # load_entries es []"
      using True load_entries_append [of es "[Pebble (str_item e ''text'') (str_item e ''timestamp'')]"]
      by simp
    then show ?thesis using True Cons.IH entry_ok_holds [OF True] by simp
  next
    case False
    then show ?thesis using Cons.IH by simp
  qed
qed

text \<open>
  Claim C10. When the pebbles file holds a JSON list, \<open>_load\<close> returns without an error
  and its result is, in order, exactly the pebbles held by the entries that pass the
  test (a dict whose \<^verbatim>\<open>text\<close> and \<^verbatim>\<open>timestamp\<close> are strings): every other entry is
  dropped silently. The result is never longer than the list in the file and is
  strictly shorter as soon as one entry fails the test, and a save of that result
  that meets no fault leaves exactly the shorter list in the file.
\<close>

theorem pebbles_load_keeps_well_formed_entries:
  assumes "fs path = Some (Text (Doc (JList entries)))" and "\<not> unr path"
  shows "\<exists>ps. pebbles_load unr path fs = Returned ps
            \<and> list_all2 holds_pebble (filter entry_ok entries) ps
            \<and> length ps \<le> length entries
            \<and> ((\<exists>e \<in> set entries. \<not> entry_ok e) \<longrightarrow> length ps < length entries)
            \<and> (\<forall>w. fault w = NoFault \<and> mkstemp w (parent path) fs \<noteq> None \<longrightarrow>
                  pebbles_save w path ps fs = (Returned (), snd (pebbles_save w path ps fs))
                  \<and> snd (pebbles_save w path ps fs) path
                      = Some (Text (Doc (JList (map asdict ps)))))"
proof -
  let ?ps = "load_entries entries []"
  have 1: "pebbles_load unr path fs = Returned ?ps"
    using assms by (simp add: pebbles_load_def read_text_def blank_def json_loads_def)
  have 2: "list_all2 holds_pebble (filter entry_ok entries) ?ps"
    by (rule load_entries_filter)
  have len: "length ?ps = length (filter entry_ok entries)"
    using 2 by (simp add: list_all2_lengthD)
  have 3: "length ?ps \<le> length entries"
    by (simp add: len)
  have 4: "(\<exists>e \<in> set entries. \<not> entry_ok e) \<longrightarrow> length ?ps < length entries"
    unfolding len by (auto simp: length_filter_less)
  have 5: "\<forall>w. fault w = NoFault \<and> mkstemp w (parent path) fs \<noteq> None \<longrightarrow>
             pebbles_save w path ?ps fs = (Returned (), snd (pebbles_save w path ?ps fs))
             \<and> snd (pebbles_save w path ?ps fs) path = Some (Text (Doc (JList (map asdict ?ps))))"
    by (auto simp: pebbles_save_def Let_def os_replace_def json_dumps_def)
  from 1 2 3 4 5 show ?thesis by blast
qed

text \<open>
  The file of the witness holds three entries: a pebble, the number 3 and an object
  without a timestamp. Only the first survives the load, and the save writes a list
  of one entry.
\<close>

theorem pebbles_load_keeps_well_formed_entries_witness:
  "pebbles_load (\<lambda>p. False) (Path ''/home/u'' ''.gratitude_pebbles.json'')
     (\<lambda>p. if p = Path ''/home/u'' ''.gratitude_pebbles.json''
          then Some (Text (Doc (JList
                 [JObj [(''text'', JStr ''sun''), (''timestamp'', JStr ''2024-05-01T08:00:00+00:00'')],
                  JInt 3,
                  JObj [(''text'', JStr ''rain'')]])))
          else None)
     = Returned [Pebble ''sun'' ''2024-05-01T08:00:00+00:00'']
   \<and> snd (pebbles_save \<lparr>names = [''a1b2c3d4''], fault = NoFault, unlink_fails = False\<rparr>
            (Path ''/home/u'' ''.gratitude_pebbles.json'')
            [Pebble ''sun'' ''2024-05-01T08:00:00+00:00'']
            (\<lambda>p. if p = Path ''/home/u'' ''.gratitude_pebbles.json''
                 then Some (Text (Doc (JList
                        [JObj [(''text'', JStr ''sun''), (''timestamp'', JStr ''2024-05-01T08:00:00+00:00'')],
                         JInt 3,
                         JObj [(''text'', JStr ''rain'')]])))
                 else None))
         (Path ''/home/u'' ''.gratitude_pebbles.json'')
     = Some (Text (Doc (JList
         [JObj [(''text'', JStr ''sun''), (''timestamp'', JStr ''2024-05-01T08:00:00+00:00'')]])))"
  using pebbles_load_keeps_well_formed_entries
    [of "\<lambda>p. if p = Path ''/home/u'' ''.gratitude_pebbles.json''
          then Some (Text (Doc (JList
                 [JObj [(''text'', JStr ''sun''), (''timestamp'', JStr ''2024-05-01T08:00:00+00:00'')],
                  JInt 3,
                  JObj [(''text'', JStr ''rain'')]])))
          else None"
        "Path ''/home/u'' ''.gratitude_pebbles.json''"
        "[JObj [(''text'', JStr ''sun''), (''timestamp'', JStr ''2024-05-01T08:00:00+00:00'')],
          JInt 3,
          JObj [(''text'', JStr ''rain'')]]"
        "\<lambda>p. False"]
  by (simp add: pebbles_load_def read_text_def blank_def json_loads_def dict_get_def
        pebbles_save_def mkstemp_def tmp_candidates_def os_replace_def json_dumps_def asdict_def)

lemma mkstemp_fresh:
  assumes "mkstemp w dir fs = Some t"
  shows "fs t = None" and "parent t = dir" and "t \<in> set (tmp_candidates w dir)"
proof -
  from assms have f: "find (\<lambda>p. fs p = None) (tmp_candidates w dir) = Some t"
    by (simp add: mkstemp_def split: if_splits)
  then obtain i where i: "i < length (tmp_candidates w dir)" "tmp_candidates w dir ! i = t" "fs t = None"
    by (auto simp: find_Some_iff)
  show "fs t = None" by (rule i(3))
  show "t \<in> set (tmp_candidates w dir)" using i(1,2) by (metis nth_mem)
  then show "parent t = dir" by (auto simp: tmp_candidates_def)
qed

lemma mkstemp_fails: "fault w = MkstempFails \<Longrightarrow> mkstemp w dir fs = None"
  by (simp add: mkstemp_def)

lemma replace_fresh:
  assumes "fs t = None" "t \<noteq> p"
  shows "os_replace t p (fs(t \<mapsto> c)) = fs(p \<mapsto> c)"
  using assms by (auto simp: os_replace_def fun_eq_iff)

lemma replace_same: "os_replace p p fs = fs"
  by (simp add: os_replace_def)

lemma unlink_fresh:
  assumes "fs t = None"
  shows "unlink_suppressed w t (fs(t \<mapsto> c)) = (if unlink_fails w then fs(t \<mapsto> c) else fs)"
  using assms by (auto simp: unlink_suppressed_def fun_eq_iff)

lemma write_atomic_json_cases:
  "write_atomic_json w path data fs =
     (case mkstemp w (parent path) fs of
        None \<Rightarrow> (Raised OSError, fs)
      | Some t \<Rightarrow>
          (case fault w of
             WriteFails e c \<Rightarrow> (Raised e, if unlink_fails w then fs(t \<mapsto> c) else fs)
           | KilledWriting c \<Rightarrow> (Killed, fs(t \<mapsto> c))
           | KilledBeforeReplace \<Rightarrow> (Killed, fs(t \<mapsto> Text (json_dumps data)))
           | ReplaceFails \<Rightarrow>
               (Raised OSError, if unlink_fails w then fs(t \<mapsto> Text (json_dumps data)) else fs)
           | _ \<Rightarrow> (Returned (), os_replace t path (fs(t \<mapsto> Text (json_dumps data))))))"
proof (cases "mkstemp w (parent path) fs")
  case None
  then show ?thesis by (simp add: write_atomic_json_def)
next
  case (Some t)
  then have fr: "fs t = None" by (rule mkstemp_fresh)
  have u: "\<And>c. unlink_suppressed w t (fs(t \<mapsto> c)) = (if unlink_fails w then fs(t \<mapsto> c) else fs)"
    using unlink_fresh [of fs t, OF fr] by simp
  show ?thesis
    using Some by (simp add: write_atomic_json_def Let_def u split: fault.split)
qed

lemma pebbles_save_cases:
  "pebbles_save w path ps fs =
     (case mkstemp w (parent path) fs of
        None \<Rightarrow> (Raised OSError, fs)
      | Some t \<Rightarrow>
          (case fault w of
             WriteFails e c \<Rightarrow> (Raised e, if unlink_fails w then fs(t \<mapsto> c) else fs)
           | KilledWriting c \<Rightarrow> (Killed, fs(t \<mapsto> c))
           | KilledBeforeReplace \<Rightarrow> (Killed, fs(t \<mapsto> Text (json_dumps (JList (map asdict ps)))))
           | ReplaceFails \<Rightarrow>
               (Raised OSError,
                if unlink_fails w then fs(t \<mapsto> Text (json_dumps (JList (map asdict ps)))) else fs)
           | _ \<Rightarrow> (Returned (), os_replace t path (fs(t \<mapsto> Text (json_dumps (JList (map asdict ps))))))))"
proof (cases "mkstemp w (parent path) fs")
  case None
  then show ?thesis by (simp add: pebbles_save_def)
next
  case (Some t)
  then have fr: "fs t = None" by (rule mkstemp_fresh)
  have u: "\<And>c. unlink_suppressed w t (fs(t \<mapsto> c)) = (if unlink_fails w then fs(t \<mapsto> c) else fs)"
    using unlink_fresh [of fs t, OF fr] by simp
  show ?thesis
    using Some by (simp add: pebbles_save_def Let_def u split: fault.split)
qed

lemma atomic_table:
  assumes W: "res =
     (case mkstemp w (parent path) fs of
        None \<Rightarrow> (Raised OSError, fs)
      | Some t \<Rightarrow>
          (case fault w of
             WriteFails e c \<Rightarrow> (Raised e, if unlink_fails w then fs(t \<mapsto> c) else fs)
           | KilledWriting c \<Rightarrow> (Killed, fs(t \<mapsto> c))
           | KilledBeforeReplace \<Rightarrow> (Killed, fs(t \<mapsto> Text payload))
           | ReplaceFails \<Rightarrow> (Raised OSError, if unlink_fails w then fs(t \<mapsto> Text payload) else fs)
           | _ \<Rightarrow> (Returned (), os_replace t path (fs(t \<mapsto> Text payload)))))"
    and H: "mkstemp w (parent path) fs \<noteq> Some path"
  shows "atomic_write_ok w path payload fs res"
proof (cases "mkstemp w (parent path) fs")
  case None
  then show ?thesis using W by (simp add: atomic_write_ok_def)
next
  case (Some t)
  have fr: "fs t = None" and cand: "t \<in> set (tmp_candidates w (parent path))"
    using mkstemp_fresh [OF Some] by simp_all
  have ne: "t \<noteq> path" using H Some by simp
  have nf: "fault w \<noteq> MkstempFails" using Some mkstemp_fails [of w] by auto
  have rp: "os_replace t path (fs(t \<mapsto> Text payload)) = fs(path \<mapsto> Text payload)"
    by (rule replace_fresh [of fs t path, OF fr ne])
  show ?thesis
  proof (cases "fault w")
    case NoFault
    then show ?thesis using W Some rp by (simp add: atomic_write_ok_def raises_def)
  next
    case MkstempFails
    then show ?thesis using nf by simp
  next
    case (WriteFails e c)
    then show ?thesis using W Some ne cand by (auto simp: atomic_write_ok_def raises_def)
  next
    case ReplaceFails
    then show ?thesis using W Some ne cand by (auto simp: atomic_write_ok_def raises_def)
  next
    case (KilledWriting c)
    then show ?thesis using W Some ne cand by (auto simp: atomic_write_ok_def raises_def)
  next
    case KilledBeforeReplace
    then show ?thesis using W Some ne cand by (auto simp: atomic_write_ok_def raises_def)
  qed
qed

text \<open>
  Claim C1, as the code has it. Both atomic writers (\<open>write_atomic_json\<close> of
  commit\_your\_day.py and \<open>pebbles_save\<close>) create a new temporary file in the target's
  directory. Unless that temporary file is the target itself (it never is when the
  target exists), every run ends in one of three ways, which \<open>atomic_write_ok\<close> spells
  out. It returns: no fault occurred and the disk is the old one with the target
  replaced by the complete payload. It raises: the exception is the one of the fault,
  the target holds what it held before, and the temporary file is gone, so that the
  disk is exactly the old one, unless the unlink itself failed, in which case only
  candidate temporary names can differ. It is killed: the target holds what it held
  before.
\<close>

theorem atomic_writers_failure_handling:
  assumes "mkstemp w (parent path) fs \<noteq> Some path"
  shows "(\<forall>t. mkstemp w (parent path) fs = Some t \<longrightarrow> parent t = parent path \<and> fs t = None)
       \<and> atomic_write_ok w path (json_dumps data) fs (write_atomic_json w path data fs)
       \<and> atomic_write_ok w path (json_dumps (JList (map asdict pebbles))) fs
            (pebbles_save w path pebbles fs)"
proof -
  have 1: "\<forall>t. mkstemp w (parent path) fs = Some t \<longrightarrow> parent t = parent path \<and> fs t = None"
    using mkstemp_fresh by blast
  have 2: "atomic_write_ok w path (json_dumps data) fs (write_atomic_json w path data fs)"
    by (rule atomic_table [OF write_atomic_json_cases assms])
  have 3: "atomic_write_ok w path (json_dumps (JList (map asdict pebbles))) fs
            (pebbles_save w path pebbles fs)"
    by (rule atomic_table [OF pebbles_save_cases assms])
  from 1 2 3 show ?thesis by blast
qed

text \<open>
  The claim as written promises that every failure deletes the temporary file. The
  writers suppress an \<open>OSError\<close> of the unlink: when the write fails after one
  character and the unlink fails too, the original \<open>OSError\<close> is raised and the
  temporary file is still there.
\<close>

theorem temp_file_survives_failed_unlink:
  "fst (write_atomic_json
          \<lparr>names = [''k3x9q2ab''], fault = WriteFails OSError (Text (Junk ''{'')), unlink_fails = True\<rparr>
          (Path ''/home/u/.commit_your_day'' ''life_commits.json'')
          (JObj [(''version'', JStr ''1.0'')])
          (\<lambda>p. if p = Path ''/home/u/.commit_your_day'' ''life_commits.json''
               then Some (Text (Doc (JObj []))) else None))
     = Raised OSError
   \<and> snd (write_atomic_json
          \<lparr>names = [''k3x9q2ab''], fault = WriteFails OSError (Text (Junk ''{'')), unlink_fails = True\<rparr>
          (Path ''/home/u/.commit_your_day'' ''life_commits.json'')
          (JObj [(''version'', JStr ''1.0'')])
          (\<lambda>p. if p = Path ''/home/u/.commit_your_day'' ''life_commits.json''
               then Some (Text (Doc (JObj []))) else None))
       (Path ''/home/u/.commit_your_day'' ''tmpk3x9q2ab.tmp'')
     = Some (Text (Junk ''{''))"
  by (simp add: write_atomic_json_def mkstemp_def tmp_candidates_def unlink_suppressed_def)

text \<open>
  A witness: the rename fails, the unlink works. Nothing on the disk has changed.
\<close>

theorem atomic_writers_failure_handling_witness:
  "mkstemp \<lparr>names = [''k3x9q2ab''], fault = ReplaceFails, unlink_fails = False\<rparr>
      ''/home/u/.commit_your_day''
      (\<lambda>p. if p = Path ''/home/u/.commit_your_day'' ''life_commits.json''
           then Some (Text (Doc (JObj []))) else None)
     = Some (Path ''/home/u/.commit_your_day'' ''tmpk3x9q2ab.tmp'')
   \<and> write_atomic_json
        \<lparr>names = [''k3x9q2ab''], fault = ReplaceFails, unlink_fails = False\<rparr>
        (Path ''/home/u/.commit_your_day'' ''life_commits.json'')
        (JObj [(''version'', JStr ''1.0'')])
        (\<lambda>p. if p = Path ''/home/u/.commit_your_day'' ''life_commits.json''
             then Some (Text (Doc (JObj []))) else None)
     = (Raised OSError,
        (\<lambda>p. if p = Path ''/home/u/.commit_your_day'' ''life_commits.json''
             then Some (Text (Doc (JObj []))) else None))
   \<and> atomic_write_ok
        \<lparr>names = [''k3x9q2ab''], fault = ReplaceFails, unlink_fails = False\<rparr>
        (Path ''/home/u/.commit_your_day'' ''life_commits.json'')
        (json_dumps (JObj [(''version'', JStr ''1.0'')]))
        (\<lambda>p. if p = Path ''/home/u/.commit_your_day'' ''life_commits.json''
             then Some (Text (Doc (JObj []))) else None)
        (Raised OSError,
         (\<lambda>p. if p = Path ''/home/u/.commit_your_day'' ''life_commits.json''
              then Some (Text (Doc (JObj []))) else None))"
proof -
  let ?w = "\<lparr>names = [''k3x9q2ab''], fault = ReplaceFails, unlink_fails = False\<rparr>"
  let ?p = "Path ''/home/u/.commit_your_day'' ''life_commits.json''"
  let ?fs = "\<lambda>p. if p = ?p then Some (Text (Doc (JObj []))) else None"
  have m: "mkstemp ?w ''/home/u/.commit_your_day'' ?fs
             = Some (Path ''/home/u/.commit_your_day'' ''tmpk3x9q2ab.tmp'')"
    by (simp add: mkstemp_def tmp_candidates_def)
  then have h: "mkstemp ?w (parent ?p) ?fs \<noteq> Some ?p" by simp
  have r: "write_atomic_json ?w ?p (JObj [(''version'', JStr ''1.0'')]) ?fs = (Raised OSError, ?fs)"
    using m by (simp add: write_atomic_json_cases)
  show ?thesis
    using m r atomic_writers_failure_handling [OF h, of "JObj [(''version'', JStr ''1.0'')]" "[]"]
    by simp
qed

lemma show_nat_1: "show_nat (Suc 0) = ''1''"
  by (simp add: digit_char_def)

lemma show_nat_2: "show_nat 2 = ''2''"
  by (simp add: digit_char_def)

lemma show_nat_3: "show_nat 3 = ''3''"
  by (simp add: digit_char_def)

lemma rotated_gens: "rev [1 ..< MAX_BACKUPS] = [2, 1]"
  by (simp add: MAX_BACKUPS_def upt_rec)


lemma backup_path_neq: "backup_path path g \<noteq> path"
proof
  assume "backup_path path g = path"
  then have "name path @ BACKUP_SUFFIX @ show_nat g = name path"
    by (cases path) (simp add: backup_path_def)
  then show False by (simp add: BACKUP_SUFFIX_def)
qed

lemma os_replace_other: "src \<noteq> p \<Longrightarrow> dst \<noteq> p \<Longrightarrow> os_replace src dst fs p = fs p"
  by (simp add: os_replace_def)

lemma rotate_gens_target: "rotate_gens path gens fs path = fs path"
proof (induction gens arbitrary: fs)
  case Nil
  show ?case by simp
next
  case (Cons g gens)
  have "os_replace (backup_path path g) (backup_path path (g + 1)) fs path = fs path"
    by (rule os_replace_other) (rule backup_path_neq)+
  then show ?case using Cons.IH by (simp add: Let_def)
qed

lemma rotate_backups_target: "rotate_backups path fs path = fs path"
  using backup_path_neq [of path 1]
  by (auto simp: rotate_backups_def Let_def rotate_gens_target)

lemma atomic_ok_intact:
  "atomic_write_ok w path payload fs res \<Longrightarrow> target_intact path payload fs res"
  by (cases res; cases "fst res")
     (auto simp: atomic_write_ok_def target_intact_def split: if_splits)

text \<open>
  Claim C5, as the code has it. \<open>save_store\<close> (commit\_your\_day.py) and \<open>pebbles_save\<close>
  write through a temporary file and a rename: whatever fault or kill occurs, the
  target afterwards holds what it held before or, when the call returned, the complete
  payload. \<open>save_data\<close> (capsule.py) and \<open>save_jar\<close> (memory\_jar.py) write the target in
  place: a kill or an exception in the middle of the write leaves in the target
  whatever part of the text had reached it.
\<close>

theorem saves_and_the_target_file:
  "(mkstemp (wr env) (parent path) (rotate_backups path fs) \<noteq> Some path \<longrightarrow>
      target_intact path (json_dumps (CommitStore_to_dict store)) fs (save_store env path store fs))
   \<and> (mkstemp w (parent path) fs \<noteq> Some path \<longrightarrow>
      target_intact path (json_dumps (JList (map asdict pebbles))) fs (pebbles_save w path pebbles fs))
   \<and> save_data (KilledWriting c) capsules fs = (Killed, fs(DATA_FILE \<mapsto> c))
   \<and> save_data (WriteFails e c) capsules fs = (Raised e, fs(DATA_FILE \<mapsto> c))
   \<and> save_data NoFault capsules fs = (Returned (), fs(DATA_FILE \<mapsto> Text (json_dumps (JList capsules))))
   \<and> save_jar (KilledWriting c) jar memories fs = (Killed, fs(jar \<mapsto> c))
   \<and> save_jar (WriteFails e c) jar memories fs = (Raised e, fs(jar \<mapsto> c))
   \<and> save_jar NoFault jar memories fs = (Returned (), fs(jar \<mapsto> Text (json_dumps memories)))"
proof -
  have 1: "target_intact path (json_dumps (CommitStore_to_dict store)) fs (save_store env path store fs)"
    if h: "mkstemp (wr env) (parent path) (rotate_backups path fs) \<noteq> Some path"
  proof -
    have "atomic_write_ok (wr env) path (json_dumps (CommitStore_to_dict store)) (rotate_backups path fs)
            (save_store env path store fs)"
      unfolding save_store_def by (rule atomic_table [OF write_atomic_json_cases h])
    then have "target_intact path (json_dumps (CommitStore_to_dict store)) (rotate_backups path fs)
            (save_store env path store fs)"
      by (rule atomic_ok_intact)
    then show ?thesis by (simp add: target_intact_def rotate_backups_target)
  qed
  have 2: "target_intact path (json_dumps (JList (map asdict pebbles))) fs (pebbles_save w path pebbles fs)"
    if h: "mkstemp w (parent path) fs \<noteq> Some path"
    by (rule atomic_ok_intact) (rule atomic_table [OF pebbles_save_cases h])
  have 3: "save_data (KilledWriting c) capsules fs = (Killed, fs(DATA_FILE \<mapsto> c))"
    "save_data (WriteFails e c) capsules fs = (Raised e, fs(DATA_FILE \<mapsto> c))"
    "save_data NoFault capsules fs = (Returned (), fs(DATA_FILE \<mapsto> Text (json_dumps (JList capsules))))"
    by (simp_all add: save_data_def write_in_place_def)
  have 4: "save_jar (KilledWriting c) jar memories fs = (Killed, fs(jar \<mapsto> c))"
    "save_jar (WriteFails e c) jar memories fs = (Raised e, fs(jar \<mapsto> c))"
    "save_jar NoFault jar memories fs = (Returned (), fs(jar \<mapsto> Text (json_dumps memories)))"
    by (simp_all add: save_jar_def write_in_place_def)
  from 1 2 3 4 show ?thesis by blast
qed

text \<open>
  The claim as written counts capsule.py among the tools whose target is never seen
  partially written. Killed after the first character of a save, its data file holds
  that one character instead of the list it held before.
\<close>

theorem capsule_killed_mid_write_leaves_partial_file:
  "(\<lambda>p. if p = DATA_FILE then Some (Text (Doc (JList []))) else None) DATA_FILE
     = Some (Text (Doc (JList [])))
   \<and> snd (save_data (KilledWriting (Text (Junk ''['')))
            [JObj [(''message'', JStr ''be kind''), (''created_at'', JStr ''2024-05-01T08:00:00+00:00''),
                   (''tags'', JList [])]]
            (\<lambda>p. if p = DATA_FILE then Some (Text (Doc (JList []))) else None))
         DATA_FILE
     = Some (Text (Junk ''[''))"
  by (simp add: save_data_def write_in_place_def)

text \<open>
  A witness: both atomic writers killed between the write of the temporary file and the
  rename.
\<close>

theorem saves_and_the_target_file_witness:
  "mkstemp \<lparr>names = [''k3x9q2ab''], fault = KilledBeforeReplace, unlink_fails = False\<rparr>
      ''/home/u/.commit_your_day''
      (rotate_backups (Path ''/home/u/.commit_your_day'' ''life_commits.json'')
        (\<lambda>p. if p = Path ''/home/u/.commit_your_day'' ''life_commits.json''
             then Some (Text (Doc (JObj []))) else None))
     \<noteq> Some (Path ''/home/u/.commit_your_day'' ''life_commits.json'')
   \<and> target_intact (Path ''/home/u/.commit_your_day'' ''life_commits.json'')
        (json_dumps (CommitStore_to_dict \<lparr>version = ''1.0'', created_at = ''2024-05-01'', commits = []\<rparr>))
        (\<lambda>p. if p = Path ''/home/u/.commit_your_day'' ''life_commits.json''
             then Some (Text (Doc (JObj []))) else None)
        (save_store
           \<lparr>unreadable = (\<lambda>p. False), py_repr = (\<lambda>j. []),
            wr = \<lparr>names = [''k3x9q2ab''], fault = KilledBeforeReplace, unlink_fails = False\<rparr>,
            copy_fails = False, now_iso = ''2024-05-01T08:00:00+00:00''\<rparr>
           (Path ''/home/u/.commit_your_day'' ''life_commits.json'')
           \<lparr>version = ''1.0'', created_at = ''2024-05-01'', commits = []\<rparr>
           (\<lambda>p. if p = Path ''/home/u/.commit_your_day'' ''life_commits.json''
                then Some (Text (Doc (JObj []))) else None))
   \<and> mkstemp \<lparr>names = [''k3x9q2ab''], fault = KilledBeforeReplace, unlink_fails = False\<rparr>
      ''/home/u/.commit_your_day''
      (\<lambda>p. if p = Path ''/home/u/.commit_your_day'' ''life_commits.json''
           then Some (Text (Doc (JObj []))) else None)
     \<noteq> Some (Path ''/home/u/.commit_your_day'' ''life_commits.json'')
   \<and> target_intact (Path ''/home/u/.commit_your_day'' ''life_commits.json'')
        (json_dumps (JList (map asdict [Pebble ''sun'' ''2024-05-01T08:00:00+00:00''])))
        (\<lambda>p. if p = Path ''/home/u/.commit_your_day'' ''life_commits.json''
             then Some (Text (Doc (JObj []))) else None)
        (pebbles_save \<lparr>names = [''k3x9q2ab''], fault = KilledBeforeReplace, unlink_fails = False\<rparr>
           (Path ''/home/u/.commit_your_day'' ''life_commits.json'')
           [Pebble ''sun'' ''2024-05-01T08:00:00+00:00'']
           (\<lambda>p. if p = Path ''/home/u/.commit_your_day'' ''life_commits.json''
                then Some (Text (Doc (JObj []))) else None))"
proof -
  let ?w = "\<lparr>names = [''k3x9q2ab''], fault = KilledBeforeReplace, unlink_fails = False\<rparr>"
  let ?env = "\<lparr>unreadable = (\<lambda>p. False), py_repr = (\<lambda>j. []), wr = ?w,
            copy_fails = False, now_iso = ''2024-05-01T08:00:00+00:00''\<rparr>"
  let ?p = "Path ''/home/u/.commit_your_day'' ''life_commits.json''"
  let ?fs = "\<lambda>p. if p = ?p then Some (Text (Doc (JObj []))) else None"
  have a: "mkstemp ?w ''/home/u/.commit_your_day'' (rotate_backups ?p ?fs) \<noteq> Some ?p"
    using mkstemp_fresh(3) [of ?w "''/home/u/.commit_your_day''" "rotate_backups ?p ?fs" ?p]
    by (auto simp: tmp_candidates_def)
  have b: "mkstemp ?w ''/home/u/.commit_your_day'' ?fs \<noteq> Some ?p"
    using mkstemp_fresh(3) [of ?w "''/home/u/.commit_your_day''" ?fs ?p]
    by (auto simp: tmp_candidates_def)
  show ?thesis
    using a b saves_and_the_target_file
      [of ?env ?p ?fs "\<lparr>version = ''1.0'', created_at = ''2024-05-01'', commits = []\<rparr>"
          ?w "[Pebble ''sun'' ''2024-05-01T08:00:00+00:00'']"]
    by simp
qed

lemma py_str_JStr: "py_str r \<circ> JStr = id"
  by (rule ext) simp

lemma map_py_str_JStr: "map (py_str r) (map JStr ts) = ts"
  by (simp add: py_str_JStr)

lemma LifeCommit_roundtrip:
  "LifeCommit_to_dict c = JObj d \<Longrightarrow> LifeCommit_from_dict r d = Returned c"
  by (auto simp: LifeCommit_to_dict_def LifeCommit_from_dict_def dict_get_def str_or_default_def
        py_str_JStr)

lemma commits_roundtrip: "commits_from r (map LifeCommit_to_dict cs) = Returned cs"
proof (induction cs)
  case Nil
  show ?case by simp
next
  case (Cons c cs)
  obtain d where d: "LifeCommit_to_dict c = JObj d" by (simp add: LifeCommit_to_dict_def)
  show ?case using Cons.IH LifeCommit_roundtrip [OF d, of r] by (simp add: d)
qed

lemma CommitStore_roundtrip:
  "CommitStore_to_dict st = JObj d \<Longrightarrow> CommitStore_from_dict r d = Returned st"
  by (auto simp: CommitStore_to_dict_def CommitStore_from_dict_def dict_get_def str_or_default_def
        commits_roundtrip)

lemma CommitStore_to_dict_obj: "\<exists>d. CommitStore_to_dict st = JObj d"
  by (simp add: CommitStore_to_dict_def)

lemma write_atomic_json_quiet:
  assumes "fault w = NoFault" and "temp_free w path fs"
  shows "write_atomic_json w path data fs = (Returned (), fs(path \<mapsto> Text (json_dumps data)))"
proof -
  from assms(2) obtain t ts where c: "tmp_candidates w (parent path) = t # ts"
    and fr: "fs t = None" and ne: "t \<noteq> path"
    by (auto simp: temp_free_def split: list.splits)
  have m: "mkstemp w (parent path) fs = Some t"
    using assms(1) c fr by (simp add: mkstemp_def)
  show ?thesis
    using m assms(1) replace_fresh [of fs t path, OF fr ne]
    by (simp add: write_atomic_json_cases)
qed








lemma unusable_yields_None: "unusable fs p \<Longrightarrow> yields env fs p = None"
  by (auto simp: unusable_def yields_def split: option.splits content.splits ftext.splits json.splits)




















text \<open>
  Claim C3. A save that meets no fault returns and leaves the serialization of the
  store in the primary file, and a load of that file (by any later run that can read
  it) returns exactly the store that was saved, record by record and field by field,
  without touching the disk.
\<close>

theorem save_then_load_roundtrip:
  assumes "fault (wr env) = NoFault" and "temp_free (wr env) path (rotate_backups path fs)"
    and "\<not> unreadable env' path"
  shows "\<exists>fs'. save_store env path st fs = (Returned (), fs')
            \<and> fs' path = Some (Text (json_dumps (CommitStore_to_dict st)))
            \<and> load_store env' path fs' = (Returned st, fs')"
proof -
  let ?fs' = "(rotate_backups path fs)(path \<mapsto> Text (json_dumps (CommitStore_to_dict st)))"
  have s: "save_store env path st fs = (Returned (), ?fs')"
    unfolding save_store_def by (rule write_atomic_json_quiet [OF assms(1,2)])
  obtain d where d: "CommitStore_to_dict st = JObj d"
    using CommitStore_to_dict_obj by blast
  have l: "load_store env' path ?fs' = (Returned st, ?fs')"
    using assms(3) CommitStore_roundtrip [OF d, of "py_repr env'"]
    by (simp add: load_store_def read_text_def json_loads_def json_dumps_def d)
  from s l show ?thesis by simp
qed

text \<open>
  A witness: a store with one commit that carries two tags.
\<close>

theorem save_then_load_roundtrip_witness:
  "save_store
      \<lparr>unreadable = (\<lambda>p. False), py_repr = (\<lambda>j. []),
       wr = \<lparr>names = [''k3x9q2ab''], fault = NoFault, unlink_fails = False\<rparr>,
       copy_fails = False, now_iso = ''2024-05-01T08:00:00+00:00''\<rparr>
      (Path ''/home/u/.commit_your_day'' ''life_commits.json'')
      \<lparr>version = ''1.0'', created_at = ''2024-04-30'',
       commits = [\<lparr>commit_id = ''6f1c'', timestamp = ''2024-05-01T08:00:00+00:00'',
                   commit_date = ''2024-05-01'', commit_type = ''fix'', message = ''fixed the bike'',
                   scope = ''life'', details = [], tags = [''bike'', ''repair''],
                   mood_score = 2, energy_score = 4\<rparr>]\<rparr>
      [Path ''/home/u/.commit_your_day'' ''life_commits.json'' \<mapsto> Text (Doc (JObj []))]
    = (Returned (),
       snd (save_store
      \<lparr>unreadable = (\<lambda>p. False), py_repr = (\<lambda>j. []),
       wr = \<lparr>names = [''k3x9q2ab''], fault = NoFault, unlink_fails = False\<rparr>,
       copy_fails = False, now_iso = ''2024-05-01T08:00:00+00:00''\<rparr>
      (Path ''/home/u/.commit_your_day'' ''life_commits.json'')
      \<lparr>version = ''1.0'', created_at = ''2024-04-30'',
       commits = [\<lparr>commit_id = ''6f1c'', timestamp = ''2024-05-01T08:00:00+00:00'',
                   commit_date = ''2024-05-01'', commit_type = ''fix'', message = ''fixed the bike'',
                   scope = ''life'', details = [], tags = [''bike'', ''repair''],
                   mood_score = 2, energy_score = 4\<rparr>]\<rparr>
      [Path ''/home/u/.commit_your_day'' ''life_commits.json'' \<mapsto> Text (Doc (JObj []))]))
   \<and> fst (load_store
      \<lparr>unreadable = (\<lambda>p. False), py_repr = (\<lambda>j. []),
       wr = \<lparr>names = [''k3x9q2ab''], fault = NoFault, unlink_fails = False\<rparr>,
       copy_fails = False, now_iso = ''2024-05-02T09:00:00+00:00''\<rparr>
      (Path ''/home/u/.commit_your_day'' ''life_commits.json'')
      (snd (save_store
      \<lparr>unreadable = (\<lambda>p. False), py_repr = (\<lambda>j. []),
       wr = \<lparr>names = [''k3x9q2ab''], fault = NoFault, unlink_fails = False\<rparr>,
       copy_fails = False, now_iso = ''2024-05-01T08:00:00+00:00''\<rparr>
      (Path ''/home/u/.commit_your_day'' ''life_commits.json'')
      \<lparr>version = ''1.0'', created_at = ''2024-04-30'',
       commits = [\<lparr>commit_id = ''6f1c'', timestamp = ''2024-05-01T08:00:00+00:00'',
                   commit_date = ''2024-05-01'', commit_type = ''fix'', message = ''fixed the bike'',
                   scope = ''life'', details = [], tags = [''bike'', ''repair''],
                   mood_score = 2, energy_score = 4\<rparr>]\<rparr>
      [Path ''/home/u/.commit_your_day'' ''life_commits.json'' \<mapsto> Text (Doc (JObj []))])))
    = Returned
      \<lparr>version = ''1.0'', created_at = ''2024-04-30'',
       commits = [\<lparr>commit_id = ''6f1c'', timestamp = ''2024-05-01T08:00:00+00:00'',
                   commit_date = ''2024-05-01'', commit_type = ''fix'', message = ''fixed the bike'',
                   scope = ''life'', details = [], tags = [''bike'', ''repair''],
                   mood_score = 2, energy_score = 4\<rparr>]\<rparr>"
proof -
  let ?w = "\<lparr>names = [''k3x9q2ab''], fault = NoFault, unlink_fails = False\<rparr>"
  let ?env = "\<lparr>unreadable = (\<lambda>p. False), py_repr = (\<lambda>j. []), wr = ?w,
       copy_fails = False, now_iso = ''2024-05-01T08:00:00+00:00''\<rparr>"
  let ?env' = "\<lparr>unreadable = (\<lambda>p. False), py_repr = (\<lambda>j. []), wr = ?w,
       copy_fails = False, now_iso = ''2024-05-02T09:00:00+00:00''\<rparr>"
  let ?p = "Path ''/home/u/.commit_your_day'' ''life_commits.json''"
  let ?fs = "[?p \<mapsto> Text (Doc (JObj []))]"
  have a: "fault (wr ?env) = NoFault" by simp
  have g: "rotate_backups ?p ?fs (Path ''/home/u/.commit_your_day'' ''tmpk3x9q2ab.tmp'') = None"
    unfolding rotate_backups_def rotated_gens
    by (simp add: backup_path_def BACKUP_SUFFIX_def digit_char_def os_replace_def Let_def)
  have b: "temp_free (wr ?env) ?p (rotate_backups ?p ?fs)"
    using g by (simp add: temp_free_def tmp_candidates_def)
  have c: "\<not> unreadable ?env' ?p" by simp
  let ?st = "\<lparr>version = ''1.0'', created_at = ''2024-04-30'',
       commits = [\<lparr>commit_id = ''6f1c'', timestamp = ''2024-05-01T08:00:00+00:00'',
                   commit_date = ''2024-05-01'', commit_type = ''fix'', message = ''fixed the bike'',
                   scope = ''life'', details = [], tags = [''bike'', ''repair''],
                   mood_score = 2, energy_score = 4\<rparr>]\<rparr>"
  from save_then_load_roundtrip [OF a b c, of ?st]
  obtain fs' where "save_store ?env ?p ?st ?fs = (Returned (), fs')"
    and "load_store ?env' ?p fs' = (Returned ?st, fs')"
    by blast
  then show ?thesis by simp
qed

text \<open>
  The handler of \<open>load_store\<close> names four exception classes. A \<open>ValueError\<close> from
  \<^verbatim>\<open>int(nan)\<close> and a \<open>UnicodeDecodeError\<close> from the read are none of them and leave
  the loader; the theorem for claim C2 says nothing about such files.
\<close>

lemma load_store_lets_other_exceptions_through:
  "fst (load_store
        \<lparr>unreadable = (\<lambda>p. False), py_repr = (\<lambda>j. []),
         wr = \<lparr>names = [''k3x9q2ab''], fault = NoFault, unlink_fails = False\<rparr>,
         copy_fails = False, now_iso = ''2024-05-01T08:00:00+00:00''\<rparr>
        (Path ''/home/u/.commit_your_day'' ''life_commits.json'')
        [Path ''/home/u/.commit_your_day'' ''life_commits.json'' \<mapsto>
           Text (Doc (JObj [(''commits'', JList [JObj [(''mood_score'', JFloat NaN)]])]))])
     = Raised ValueError
   \<and> fst (load_store
        \<lparr>unreadable = (\<lambda>p. False), py_repr = (\<lambda>j. []),
         wr = \<lparr>names = [''k3x9q2ab''], fault = NoFault, unlink_fails = False\<rparr>,
         copy_fails = False, now_iso = ''2024-05-01T08:00:00+00:00''\<rparr>
        (Path ''/home/u/.commit_your_day'' ''life_commits.json'')
        [Path ''/home/u/.commit_your_day'' ''life_commits.json'' \<mapsto> Undecodable [CHR 0xFF]])
     = Raised UnicodeDecodeError"
  by (simp add: load_store_def read_text_def json_loads_def CommitStore_from_dict_def
        LifeCommit_from_dict_def dict_get_def caught_def)






text \<open>
  Claim C4, as the code has it. \<open>create_commit\<close> stores any integer mood as the nearest
  value of -2..2 and any integer energy as the nearest value of 1..5, and \<open>prompt_int\<close>
  does the same with the number typed at the interactive prompt. The quick commit
  command line does not clamp: a non-empty message with \<^verbatim>\<open>--mood\<close> or \<^verbatim>\<open>--energy\<close>
  out of range ends with \<open>SystemExit(1)\<close> and the disk untouched, before
  \<open>create_commit\<close> is reached.
\<close>

theorem scores_are_clamped_or_rejected:
  "mood_score (create_commit st msg ctype scp dtls tgs mood energy)
     = (if mood < - 2 then - 2 else if 2 < mood then 2 else mood)
   \<and> energy_score (create_commit st msg ctype scp dtls tgs mood energy)
     = (if energy < 1 then 1 else if 5 < energy then 5 else energy)
   \<and> prompt_int (Some v) dflt MOOD_MIN MOOD_MAX = (if v < - 2 then - 2 else if 2 < v then 2 else v)
   \<and> prompt_int (Some v) dflt ENERGY_MIN ENERGY_MAX = (if v < 1 then 1 else if 5 < v then 5 else v)
   \<and> (strip (or_else (arg_message a) []) \<noteq> [] \<and> arg_mood a = Some m \<and> (m < - 2 \<or> 2 < m)
       \<longrightarrow> cmd_quick_commit env st STORAGE_FILE a fs = (Raised (SystemExit 1), fs))
   \<and> (strip (or_else (arg_message a) []) \<noteq> [] \<and> arg_energy a = Some n \<and> (n < 1 \<or> 5 < n)
       \<longrightarrow> cmd_quick_commit env st STORAGE_FILE a fs = (Raised (SystemExit 1), fs))"
proof -
  have 1: "mood_score (create_commit st msg ctype scp dtls tgs mood energy)
     = (if mood < - 2 then - 2 else if 2 < mood then 2 else mood)"
    by (simp add: create_commit_def Let_def MOOD_MIN_def MOOD_MAX_def)
  have 2: "energy_score (create_commit st msg ctype scp dtls tgs mood energy)
     = (if energy < 1 then 1 else if 5 < energy then 5 else energy)"
    by (simp add: create_commit_def Let_def ENERGY_MIN_def ENERGY_MAX_def)
  have 3: "prompt_int (Some v) dflt MOOD_MIN MOOD_MAX = (if v < - 2 then - 2 else if 2 < v then 2 else v)"
    by (simp add: prompt_int_def MOOD_MIN_def MOOD_MAX_def)
  have 4: "prompt_int (Some v) dflt ENERGY_MIN ENERGY_MAX = (if v < 1 then 1 else if 5 < v then 5 else v)"
    by (simp add: prompt_int_def ENERGY_MIN_def ENERGY_MAX_def)
  have 5: "strip (or_else (arg_message a) []) \<noteq> [] \<and> arg_mood a = Some m \<and> (m < - 2 \<or> 2 < m)
       \<longrightarrow> cmd_quick_commit env st STORAGE_FILE a fs = (Raised (SystemExit 1), fs)"
    by (auto simp: cmd_quick_commit_def Let_def MOOD_MIN_def MOOD_MAX_def)
  have 6: "strip (or_else (arg_message a) []) \<noteq> [] \<and> arg_energy a = Some n \<and> (n < 1 \<or> 5 < n)
       \<longrightarrow> cmd_quick_commit env st STORAGE_FILE a fs = (Raised (SystemExit 1), fs)"
    by (auto simp: cmd_quick_commit_def Let_def ENERGY_MIN_def ENERGY_MAX_def)
  from 1 2 3 4 5 6 show ?thesis by blast
qed

lemma strip_fixed: "strip ''fixed the bike'' = ''fixed the bike''"
  by (simp add: strip_def is_space_def)

text \<open>
  The claim as written has mood 99 stored clamped. \<^verbatim>\<open>-m "fixed the bike" --mood 99\<close>
  exits with code 1 and stores nothing: the store file does not even come to exist.
\<close>

theorem quick_commit_rejects_mood_99:
  "fst (cmd_quick_commit
         \<lparr>unreadable = (\<lambda>p. False), py_repr = (\<lambda>j. []),
          wr = \<lparr>names = [''k3x9q2ab''], fault = NoFault, unlink_fails = False\<rparr>,
          copy_fails = False, now_iso = ''2024-05-01T08:00:00+00:00''\<rparr>
         \<lparr>uuid4 = ''6f1c'', now_utc_iso = ''2024-05-01T08:00:00+00:00'', date_today = Date 2024 5 1\<rparr>
         (Path ''/home/u/.commit_your_day'' ''life_commits.json'')
         \<lparr>arg_message = Some ''fixed the bike'', arg_commit_type = None, arg_scope = Some ''life'',
          arg_details = None, arg_tags = None, arg_mood = Some 99, arg_energy = None\<rparr>
         (\<lambda>p. None))
     = Raised (SystemExit 1)
   \<and> snd (cmd_quick_commit
         \<lparr>unreadable = (\<lambda>p. False), py_repr = (\<lambda>j. []),
          wr = \<lparr>names = [''k3x9q2ab''], fault = NoFault, unlink_fails = False\<rparr>,
          copy_fails = False, now_iso = ''2024-05-01T08:00:00+00:00''\<rparr>
         \<lparr>uuid4 = ''6f1c'', now_utc_iso = ''2024-05-01T08:00:00+00:00'', date_today = Date 2024 5 1\<rparr>
         (Path ''/home/u/.commit_your_day'' ''life_commits.json'')
         \<lparr>arg_message = Some ''fixed the bike'', arg_commit_type = None, arg_scope = Some ''life'',
          arg_details = None, arg_tags = None, arg_mood = Some 99, arg_energy = None\<rparr>
         (\<lambda>p. None))
       (Path ''/home/u/.commit_your_day'' ''life_commits.json'')
     = None"
  by (simp add: cmd_quick_commit_def or_else_def strip_fixed MOOD_MIN_def MOOD_MAX_def
        MOOD_DEFAULT_def ENERGY_DEFAULT_def)

text \<open>
  A witness: mood 99 and energy 0 through \<open>create_commit\<close>, through the prompt, and
  on the command line.
\<close>

theorem scores_are_clamped_or_rejected_witness:
  "mood_score (create_commit
        \<lparr>uuid4 = ''6f1c'', now_utc_iso = ''2024-05-01T08:00:00+00:00'', date_today = Date 2024 5 1\<rparr>
        ''fixed the bike'' None ''life'' [] [] 99 0) = 2
   \<and> energy_score (create_commit
        \<lparr>uuid4 = ''6f1c'', now_utc_iso = ''2024-05-01T08:00:00+00:00'', date_today = Date 2024 5 1\<rparr>
        ''fixed the bike'' None ''life'' [] [] 99 0) = 1
   \<and> prompt_int (Some 99) 0 MOOD_MIN MOOD_MAX = 2
   \<and> cmd_quick_commit
         \<lparr>unreadable = (\<lambda>p. False), py_repr = (\<lambda>j. []),
          wr = \<lparr>names = [''k3x9q2ab''], fault = NoFault, unlink_fails = False\<rparr>,
          copy_fails = False, now_iso = ''2024-05-01T08:00:00+00:00''\<rparr>
         \<lparr>uuid4 = ''6f1c'', now_utc_iso = ''2024-05-01T08:00:00+00:00'', date_today = Date 2024 5 1\<rparr>
         (Path ''/home/u/.commit_your_day'' ''life_commits.json'')
         \<lparr>arg_message = Some ''fixed the bike'', arg_commit_type = None, arg_scope = Some ''life'',
          arg_details = None, arg_tags = None, arg_mood = Some 99, arg_energy = Some 0\<rparr>
         (\<lambda>p. None)
     = (Raised (SystemExit 1), (\<lambda>p. None))"
  using scores_are_clamped_or_rejected
    [of "\<lparr>uuid4 = ''6f1c'', now_utc_iso = ''2024-05-01T08:00:00+00:00'', date_today = Date 2024 5 1\<rparr>"
        "''fixed the bike''" None "''life''" "[]" "[]" 99 0 99 0
        "\<lparr>arg_message = Some ''fixed the bike'', arg_commit_type = None, arg_scope = Some ''life'',
          arg_details = None, arg_tags = None, arg_mood = Some 99, arg_energy = Some 0\<rparr>"
        99
        "\<lparr>unreadable = (\<lambda>p. False), py_repr = (\<lambda>j. []),
          wr = \<lparr>names = [''k3x9q2ab''], fault = NoFault, unlink_fails = False\<rparr>,
          copy_fails = False, now_iso = ''2024-05-01T08:00:00+00:00''\<rparr>"
        "Path ''/home/u/.commit_your_day'' ''life_commits.json''"
        "\<lambda>p. None" 0]
  by (simp add: or_else_def strip_fixed)

section \<open>Properties of the streak\<close>

subsection \<open>Dates as text and as ordinals\<close>

lemma digit_cases: "d < 10 \<Longrightarrow> d \<in> {0, 1, 2, 3, 4, 5, 6, 7, 8, 9 :: nat}"
  by (simp only: insert_iff empty_iff) arith

lemma of_char_digit: "n < 10 \<Longrightarrow> (of_char (digit_char n) :: nat) = 48 + n"
  using digit_cases [of n] by (auto simp: digit_char_def)

lemma digit_char_less: "a < 10 \<Longrightarrow> b < 10 \<Longrightarrow> digit_char a < digit_char b \<longleftrightarrow> a < b"
  by (simp add: less_char_def of_char_digit)

lemma digit_char_eq: "a < 10 \<Longrightarrow> b < 10 \<Longrightarrow> digit_char a = digit_char b \<longleftrightarrow> a = b"
proof
  assume "a < 10" "b < 10" "digit_char a = digit_char b"
  then have "(of_char (digit_char a) :: nat) = of_char (digit_char b)" by simp
  then show "a = b" using \<open>a < 10\<close> \<open>b < 10\<close> by (simp add: of_char_digit)
qed simp

lemma append_less_same_length:
  "length xs = length ys \<Longrightarrow> xs @ us < ys @ vs \<longleftrightarrow> xs < ys \<or> (xs = ys \<and> us < vs)"
  by (induction xs ys rule: list_induct2) auto

lemma length_pad4: "length (pad4 n) = 4" by (simp add: pad4_def)
lemma length_pad2: "length (pad2 n) = 2" by (simp add: pad2_def)

lemma lex2:
  fixes q1 r1 q2 r2 :: nat
  assumes "r1 < 10" "r2 < 10"
  shows "10 * q1 + r1 < 10 * q2 + r2 \<longleftrightarrow> q1 < q2 \<or> (q1 = q2 \<and> r1 < r2)"
  using assms by arith

lemma eq2:
  fixes q1 r1 q2 r2 :: nat
  assumes "r1 < 10" "r2 < 10"
  shows "10 * q1 + r1 = 10 * q2 + r2 \<longleftrightarrow> q1 = q2 \<and> r1 = r2"
  using assms by arith

lemma less_by_digits:
  "(x::nat) < y \<longleftrightarrow> x div 10 < y div 10 \<or> (x div 10 = y div 10 \<and> x mod 10 < y mod 10)"
  using lex2 [of "x mod 10" "y mod 10" "x div 10" "y div 10"] by simp

lemma eq_by_digits:
  "(x::nat) = y \<longleftrightarrow> x div 10 = y div 10 \<and> x mod 10 = y mod 10"
  using eq2 [of "x mod 10" "y mod 10" "x div 10" "y div 10"] by simp

lemma div_div_100: "(x::nat) div 10 div 10 = x div 100" by (simp add: div_mult2_eq [symmetric])
lemma div_div_1000: "(x::nat) div 100 div 10 = x div 1000" by (simp add: div_mult2_eq [symmetric])

lemma pad4_less: 
  assumes "a < 10000" "b < 10000" 
  shows "pad4 a < pad4 b \<longleftrightarrow> a < b"
proof -
  have qa: "a div 1000 < 10" using assms(1) by (simp add: div_less_iff_less_mult)
  have qb: "b div 1000 < 10" using assms(2) by (simp add: div_less_iff_less_mult)
  have ha: "a div 1000 mod 10 = a div 1000" using qa by simp
  have hb: "b div 1000 mod 10 = b div 1000" using qb by simp
  have "a < b \<longleftrightarrow> a div 10 < b div 10 \<or> (a div 10 = b div 10 \<and> a mod 10 < b mod 10)"
    by (rule less_by_digits)
  moreover have "a div 10 < b div 10 \<longleftrightarrow>
      a div 100 < b div 100 \<or> (a div 100 = b div 100 \<and> a div 10 mod 10 < b div 10 mod 10)"
    using less_by_digits [of "a div 10" "b div 10"] by (simp only: div_div_100)
  moreover have "a div 10 = b div 10 \<longleftrightarrow> a div 100 = b div 100 \<and> a div 10 mod 10 = b div 10 mod 10"
    using eq_by_digits [of "a div 10" "b div 10"] by (simp only: div_div_100)
  moreover have "a div 100 < b div 100 \<longleftrightarrow>
      a div 1000 < b div 1000 \<or> (a div 1000 = b div 1000 \<and> a div 100 mod 10 < b div 100 mod 10)"
    using less_by_digits [of "a div 100" "b div 100"] by (simp only: div_div_1000)
  moreover have "a div 100 = b div 100 \<longleftrightarrow> a div 1000 = b div 1000 \<and> a div 100 mod 10 = b div 100 mod 10"
    using eq_by_digits [of "a div 100" "b div 100"] by (simp only: div_div_1000)
  moreover have "pad4 a < pad4 b \<longleftrightarrow>
      a div 1000 < b div 1000 \<or> (a div 1000 = b div 1000 \<and>
        (a div 100 mod 10 < b div 100 mod 10 \<or> (a div 100 mod 10 = b div 100 mod 10 \<and>
          (a div 10 mod 10 < b div 10 mod 10 \<or> (a div 10 mod 10 = b div 10 mod 10 \<and>
             a mod 10 < b mod 10)))))"
    using qa qb by (simp add: pad4_def digit_char_less digit_char_eq ha hb)
  ultimately show ?thesis by (simp only:) blast
qed

lemma pad4_eq: 
  assumes "a < 10000" "b < 10000" 
  shows "pad4 a = pad4 b \<longleftrightarrow> a = b"
proof -
  have qa: "a div 1000 < 10" using assms(1) by (simp add: div_less_iff_less_mult)
  have qb: "b div 1000 < 10" using assms(2) by (simp add: div_less_iff_less_mult)
  have ha: "a div 1000 mod 10 = a div 1000" using qa by simp
  have hb: "b div 1000 mod 10 = b div 1000" using qb by simp
  have "a = b \<longleftrightarrow> a div 10 = b div 10 \<and> a mod 10 = b mod 10"
    by (rule eq_by_digits)
  moreover have "a div 10 = b div 10 \<longleftrightarrow> a div 100 = b div 100 \<and> a div 10 mod 10 = b div 10 mod 10"
    using eq_by_digits [of "a div 10" "b div 10"] by (simp only: div_div_100)
  moreover have "a div 100 = b div 100 \<longleftrightarrow> a div 1000 = b div 1000 \<and> a div 100 mod 10 = b div 100 mod 10"
    using eq_by_digits [of "a div 100" "b div 100"] by (simp only: div_div_1000)
  moreover have "pad4 a = pad4 b \<longleftrightarrow>
      a div 1000 = b div 1000 \<and> a div 100 mod 10 = b div 100 mod 10 \<and>
      a div 10 mod 10 = b div 10 mod 10 \<and> a mod 10 = b mod 10"
    using qa qb by (simp add: pad4_def digit_char_eq ha hb)
  ultimately show ?thesis by (simp only:) blast
qed

lemma pad2_less:
  assumes "a < 100" "b < 100"
  shows "pad2 a < pad2 b \<longleftrightarrow> a < b"
proof -
  have qa: "a div 10 < 10" using assms(1) by (simp add: div_less_iff_less_mult)
  have qb: "b div 10 < 10" using assms(2) by (simp add: div_less_iff_less_mult)
  have ha: "a div 10 mod 10 = a div 10" using qa by simp
  have hb: "b div 10 mod 10 = b div 10" using qb by simp
  have "pad2 a < pad2 b \<longleftrightarrow> a div 10 < b div 10 \<or> (a div 10 = b div 10 \<and> a mod 10 < b mod 10)"
    using qa qb by (simp add: pad2_def digit_char_less digit_char_eq ha hb)
  then show ?thesis using less_by_digits [of a b] by simp
qed

lemma pad2_eq:
  assumes "a < 100" "b < 100"
  shows "pad2 a = pad2 b \<longleftrightarrow> a = b"
proof -
  have qa: "a div 10 < 10" using assms(1) by (simp add: div_less_iff_less_mult)
  have qb: "b div 10 < 10" using assms(2) by (simp add: div_less_iff_less_mult)
  have ha: "a div 10 mod 10 = a div 10" using qa by simp
  have hb: "b div 10 mod 10 = b div 10" using qb by simp
  have "pad2 a = pad2 b \<longleftrightarrow> a div 10 = b div 10 \<and> a mod 10 = b mod 10"
    using qa qb by (simp add: pad2_def digit_char_eq ha hb)
  then show ?thesis using eq_by_digits [of a b] by simp
qed

lemma days_in_month_le: "days_in_month y m \<le> 31"
  by (simp add: days_in_month_def)

lemma valid_bounds:
  assumes "valid_date d"
  shows "year d < 10000" "month d < 100" "day d < 100"
  using assms days_in_month_le [of "year d" "month d"] by (auto simp: valid_date_def)

lemma iso_less:
  assumes "valid_date d1" "valid_date d2"
  shows "isoformat d1 < isoformat d2 \<longleftrightarrow>
     year d1 < year d2 \<or> (year d1 = year d2 \<and>
       (month d1 < month d2 \<or> (month d1 = month d2 \<and> day d1 < day d2)))"
proof -
  note b1 = valid_bounds [OF assms(1)] and b2 = valid_bounds [OF assms(2)]
  have t: "pad2 (month d1) @ ''-'' @ pad2 (day d1) < pad2 (month d2) @ ''-'' @ pad2 (day d2) \<longleftrightarrow>
       month d1 < month d2 \<or> (month d1 = month d2 \<and> day d1 < day d2)"
    using b1 b2
    by (simp add: append_less_same_length length_pad2 pad2_less pad2_eq)
  have "isoformat d1 < isoformat d2 \<longleftrightarrow>
      pad4 (year d1) < pad4 (year d2) \<or> (pad4 (year d1) = pad4 (year d2) \<and>
        pad2 (month d1) @ ''-'' @ pad2 (day d1) < pad2 (month d2) @ ''-'' @ pad2 (day d2))"
    by (simp add: isoformat_def append_less_same_length length_pad4)
  then show ?thesis using t b1 b2 by (simp add: pad4_less pad4_eq)
qed

lemma iso_eq:
  assumes "valid_date d1" "valid_date d2"
  shows "isoformat d1 = isoformat d2 \<longleftrightarrow> d1 = d2"
proof -
  note b1 = valid_bounds [OF assms(1)] and b2 = valid_bounds [OF assms(2)]
  have "isoformat d1 = isoformat d2 \<longleftrightarrow>
      pad4 (year d1) = pad4 (year d2) \<and> pad2 (month d1) = pad2 (month d2) \<and> pad2 (day d1) = pad2 (day d2)"
    by (simp add: isoformat_def length_pad4 length_pad2)
  then show ?thesis using b1 b2 by (cases d1; cases d2) (simp add: pad4_eq pad2_eq)
qed

lemma div_step:
  "0 < k \<Longrightarrow> (int n + 1) div int k = int n div int k + (if Suc n mod k = 0 then 1 else 0)"
proof -
  assume "0 < k"
  have "(int n + 1) div int k = int (Suc n div k)"
    by (simp add: zdiv_int add.commute)
  also have "\<dots> = int (n div k) + (if Suc n mod k = 0 then 1 else 0)"
    by (simp add: div_Suc)
  finally show ?thesis by (simp add: zdiv_int)
qed

lemma days_before_year_Suc:
  assumes "1 \<le> y"
  shows "days_before_year (Suc y) = days_before_year y + (if is_leap y then 366 else 365)"
proof -
  obtain p where y: "y = Suc p" using assms by (cases y) auto
  have d4: "(int p + 1) div 4 = int p div 4 + (if Suc p mod 4 = 0 then 1 else 0)"
    using div_step [of 4 p] by simp
  have d100: "(int p + 1) div 100 = int p div 100 + (if Suc p mod 100 = 0 then 1 else 0)"
    using div_step [of 100 p] by simp
  have d400: "(int p + 1) div 400 = int p div 400 + (if Suc p mod 400 = 0 then 1 else 0)"
    using div_step [of 400 p] by simp
  have a: "Suc p mod 4 = 0" if "Suc p mod 100 = 0"
  proof -
    have "(100::nat) dvd Suc p" using that by (simp only: mod_eq_0_iff_dvd)
    moreover have "(4::nat) dvd 100" by simp
    ultimately have "(4::nat) dvd Suc p" by (rule dvd_trans [rotated])
    then show ?thesis by (simp only: mod_eq_0_iff_dvd)
  qed
  have b: "Suc p mod 100 = 0" if "Suc p mod 400 = 0"
  proof -
    have "(400::nat) dvd Suc p" using that by (simp only: mod_eq_0_iff_dvd)
    moreover have "(100::nat) dvd 400" by simp
    ultimately have "(100::nat) dvd Suc p" by (rule dvd_trans [rotated])
    then show ?thesis by (simp only: mod_eq_0_iff_dvd)
  qed
  have e1: "int (Suc y) - 1 = int p + 1" by (simp add: y)
  have e2: "int y - 1 = int p" by (simp add: y)
  have l: "days_before_year (Suc y) = (int p + 1) * 365 + (int p + 1) div 4 - (int p + 1) div 100 + (int p + 1) div 400"
    by (simp only: days_before_year_def Let_def e1)
  have r: "days_before_year y = int p * 365 + int p div 4 - int p div 100 + int p div 400"
    by (simp only: days_before_year_def Let_def e2)
  have leap: "is_leap y \<longleftrightarrow> Suc p mod 4 = 0 \<and> (Suc p mod 100 \<noteq> 0 \<or> Suc p mod 400 = 0)"
    by (simp only: is_leap_def y)
  show ?thesis
    unfolding l r leap d4 d100 d400 using a b by (auto simp: algebra_simps)
qed

lemma month_cases:
  assumes "1 \<le> m" "m \<le> 12"
  shows "m = 1 \<or> m = 2 \<or> m = 3 \<or> m = 4 \<or> m = 5 \<or> m = 6 \<or> m = 7 \<or> m = 8 \<or> m = 9
     \<or> m = 10 \<or> m = 11 \<or> m = (12::nat)"
  using assms by arith

lemma days_before_month_step:
  assumes "1 \<le> m" "m \<le> 11"
  shows "days_before_month y (Suc m) = days_before_month y m + int (days_in_month y m)"
proof -
  have "m = 1 \<or> m = 2 \<or> m = 3 \<or> m = 4 \<or> m = 5 \<or> m = 6 \<or> m = 7 \<or> m = 8 \<or> m = 9
     \<or> m = 10 \<or> m = 11 \<or> m = (12::nat)"
    using assms by (intro month_cases) auto
  with assms(2) show ?thesis
    by (elim disjE) (simp_all add: days_before_month_def DAYS_BEFORE_MONTH_def days_in_month_def)
qed

lemma days_before_month_1: "days_before_month y 1 = 0"
  by (simp add: days_before_month_def DAYS_BEFORE_MONTH_def)

lemma days_before_month_12:
  "days_before_month y 12 + 31 = (if is_leap y then 366 else 365)"
  by (simp add: days_before_month_def DAYS_BEFORE_MONTH_def)

lemma days_before_month_nonneg: "0 \<le> days_before_month y m"
  by (simp add: days_before_month_def)

lemma days_before_month_mono:
  "1 \<le> m1 \<Longrightarrow> m1 < m2 \<Longrightarrow> m2 \<le> 12 \<Longrightarrow>
     days_before_month y m1 + int (days_in_month y m1) \<le> days_before_month y m2"
proof (induction m2)
  case 0
  then show ?case by simp
next
  case (Suc k)
  have k: "k \<le> 11" using Suc.prems by simp
  show ?case
  proof (cases "m1 = k")
    case True
    then show ?thesis using days_before_month_step [of k y] Suc.prems k by simp
  next
    case False
    then have "m1 < k" using Suc.prems by simp
    then have "days_before_month y m1 + int (days_in_month y m1) \<le> days_before_month y k"
      using Suc.IH Suc.prems by simp
    moreover have "1 \<le> k" using \<open>m1 < k\<close> by simp
    ultimately show ?thesis using days_before_month_step [of k y] k by simp
  qed
qed

lemma days_before_month_year:
  assumes "1 \<le> m" "m \<le> 12"
  shows "days_before_month y m + int (days_in_month y m) \<le> (if is_leap y then 366 else 365)"
proof (cases "m = 12")
  case True
  then show ?thesis using days_before_month_12 [of y] by (simp add: days_in_month_def)
next
  case False
  then have "m < 12" using assms by simp
  then have "days_before_month y m + int (days_in_month y m) \<le> days_before_month y 12"
    using days_before_month_mono [of m 12 y] assms by simp
  then show ?thesis using days_before_month_12 [of y] by (simp split: if_splits)
qed

lemma days_before_year_mono:
  "1 \<le> y1 \<Longrightarrow> y1 \<le> y2 \<Longrightarrow> days_before_year y1 \<le> days_before_year y2"
proof (induction y2)
  case 0
  then show ?case by simp
next
  case (Suc k)
  show ?case
  proof (cases "y1 = Suc k")
    case True
    then show ?thesis by simp
  next
    case False
    then have le: "y1 \<le> k" using Suc.prems by simp
    then have "days_before_year y1 \<le> days_before_year k" using Suc by simp
    moreover have "1 \<le> k" using le Suc.prems by simp
    ultimately show ?thesis using days_before_year_Suc [of k] by (simp split: if_splits)
  qed
qed

lemma toordinal_mono:
  assumes v1: "valid_date d1" and v2: "valid_date d2"
    and less: "year d1 < year d2 \<or> (year d1 = year d2 \<and>
       (month d1 < month d2 \<or> (month d1 = month d2 \<and> day d1 < day d2)))"
  shows "toordinal d1 < toordinal d2"
proof -
  have b1: "1 \<le> year d1" "1 \<le> month d1" "month d1 \<le> 12" "1 \<le> day d1"
       "day d1 \<le> days_in_month (year d1) (month d1)"
    using v1 by (simp_all add: valid_date_def)
  have b2: "1 \<le> year d2" "1 \<le> month d2" "month d2 \<le> 12" "1 \<le> day d2"
       "day d2 \<le> days_in_month (year d2) (month d2)"
    using v2 by (simp_all add: valid_date_def)
  from less consider
    (y) "year d1 < year d2"
    | (m) "year d1 = year d2" "month d1 < month d2"
    | (d) "year d1 = year d2" "month d1 = month d2" "day d1 < day d2"
    by blast
  then show ?thesis
  proof cases
    case y
    have "days_before_month (year d1) (month d1) + int (day d1)
        \<le> days_before_month (year d1) (month d1) + int (days_in_month (year d1) (month d1))"
      using b1 by simp
    also have "\<dots> \<le> (if is_leap (year d1) then 366 else 365)"
      using days_before_month_year [of "month d1" "year d1"] b1 by simp
    finally have "toordinal d1 \<le> days_before_year (Suc (year d1))"
      using days_before_year_Suc [of "year d1"] b1 by (simp add: toordinal_def)
    also have "\<dots> \<le> days_before_year (year d2)"
      using days_before_year_mono [of "Suc (year d1)" "year d2"] y by simp
    also have "\<dots> < toordinal d2"
      using days_before_month_nonneg [of "year d2" "month d2"] b2 by (simp add: toordinal_def)
    finally show ?thesis .
  next
    case m
    have "days_before_month (year d1) (month d1) + int (day d1)
        \<le> days_before_month (year d1) (month d1) + int (days_in_month (year d1) (month d1))"
      using b1 by simp
    also have "\<dots> \<le> days_before_month (year d1) (month d2)"
      using days_before_month_mono [of "month d1" "month d2" "year d1"] b1 b2 m by simp
    finally show ?thesis using m b2 by (simp add: toordinal_def)
  next
    case d
    then show ?thesis by (simp add: toordinal_def)
  qed
qed

lemma toordinal_inj:
  assumes v1: "valid_date d1" and v2: "valid_date d2" and eq: "toordinal d1 = toordinal d2"
  shows "d1 = d2"
proof (rule ccontr)
  assume ne: "d1 \<noteq> d2"
  then have "year d1 \<noteq> year d2 \<or> month d1 \<noteq> month d2 \<or> day d1 \<noteq> day d2"
    by (cases d1; cases d2) simp
  then have "(year d1 < year d2 \<or> (year d1 = year d2 \<and>
       (month d1 < month d2 \<or> (month d1 = month d2 \<and> day d1 < day d2))))
     \<or> (year d2 < year d1 \<or> (year d2 = year d1 \<and>
       (month d2 < month d1 \<or> (month d2 = month d1 \<and> day d2 < day d1))))"
    by arith
  then show False
    using toordinal_mono [OF v1 v2] toordinal_mono [OF v2 v1] eq by auto
qed

lemma iso_less_toordinal:
  assumes "valid_date d1" "valid_date d2" "isoformat d1 < isoformat d2"
  shows "toordinal d1 < toordinal d2"
  using toordinal_mono [OF assms(1,2)] iso_less [OF assms(1,2)] assms(3) by simp

lemma minus_one_day_ok:
  assumes v: "valid_date today" and ne: "today \<noteq> Date 1 1 1"
  shows "\<exists>y. minus_one_day today = Returned y \<and> valid_date y \<and> toordinal y = toordinal today - 1"
proof -
  have b: "1 \<le> year today" "year today \<le> 9999" "1 \<le> month today" "month today \<le> 12"
       "1 \<le> day today" "day today \<le> days_in_month (year today) (month today)"
    using v by (simp_all add: valid_date_def)
  consider (d) "1 < day today" | (m) "day today = 1" "1 < month today"
    | (y) "day today = 1" "month today = 1" "1 < year today"
  proof -
    have "\<not> (day today = 1 \<and> month today = 1 \<and> year today = 1)"
      using ne by (cases today) auto
    then show ?thesis using b that by arith
  qed
  then show ?thesis
  proof cases
    case d
    obtain k where k: "day today = Suc k" "1 \<le> k"
      using d by (cases "day today") auto
    show ?thesis using b k
      by (simp add: minus_one_day_def valid_date_def toordinal_def)
  next
    case m
    obtain k where k: "month today = Suc k" "1 \<le> k" "k \<le> 11"
      using m b by (cases "month today") auto
    have dim: "1 \<le> days_in_month (year today) k"
      by (simp add: days_in_month_def)
    show ?thesis
      using m b k dim days_before_month_step [of k "year today"]
      by (simp add: minus_one_day_def valid_date_def toordinal_def)
  next
    case y
    obtain k where k: "year today = Suc k" "1 \<le> k"
      using y by (cases "year today") auto
    show ?thesis
      using y b k days_before_year_Suc [of k] days_before_month_12 [of k]
        days_before_month_1 [of "Suc k"]
      by (simp add: minus_one_day_def valid_date_def toordinal_def days_in_month_def
          split: if_splits)
  qed
qed

subsection \<open>The loop over the sorted dates\<close>

lemma make_date_valid: "make_date y m d = Returned x \<Longrightarrow> valid_date x"
  by (auto simp: make_date_def split: if_splits)

lemma strptime_valid: "strptime s = Returned d \<Longrightarrow> valid_date d"
proof (cases s rule: strptime.cases)
  case (1 y1 y2 y3 y4 dash rest)
  assume r: "strptime s = Returned d"
  show ?thesis
    using r unfolding 1
    by (auto split: if_splits option.splits prod.splits list.splits dest: make_date_valid)
qed simp_all

lemma iso_dateD:
  assumes "iso_date s"
  shows "\<exists>d. strptime s = Returned d \<and> valid_date d \<and> isoformat d = s
             \<and> ordinal_of s = Some (toordinal d)"
proof (cases "strptime s")
  case (Returned d)
  then show ?thesis
    using assms strptime_valid [OF Returned] by (simp add: iso_date_def ordinal_of_def)
qed (use assms in \<open>simp_all add: iso_date_def\<close>)

lemma iso_less_ord:
  assumes "iso_date s1" "iso_date s2" "s1 < s2"
  shows "the (ordinal_of s1) < the (ordinal_of s2)"
proof -
  obtain d1 where d1: "valid_date d1" "isoformat d1 = s1" "ordinal_of s1 = Some (toordinal d1)"
    using iso_dateD [OF assms(1)] by blast
  obtain d2 where d2: "valid_date d2" "isoformat d2 = s2" "ordinal_of s2 = Some (toordinal d2)"
    using iso_dateD [OF assms(2)] by blast
  have "isoformat d1 < isoformat d2" using assms(3) d1(2) d2(2) by simp
  then have "toordinal d1 < toordinal d2" by (rule iso_less_toordinal [OF d1(1) d2(1)])
  then show ?thesis by (simp add: d1(3) d2(3))
qed

lemma streak_loop_run:
  "\<forall>s\<in>set U. iso_date s \<Longrightarrow>
     streak_loop U k = k + int (run_down (map (\<lambda>s. the (ordinal_of s)) U))"
proof (induction U k rule: streak_loop.induct)
  case (1 prev_s curr_s rest streak)
  obtain d1 where d1: "strptime prev_s = Returned d1" "ordinal_of prev_s = Some (toordinal d1)"
    using iso_dateD [of prev_s] "1.prems" by auto
  obtain d2 where d2: "strptime curr_s = Returned d2" "ordinal_of curr_s = Some (toordinal d2)"
    using iso_dateD [of curr_s] "1.prems" by auto
  show ?case
  proof (cases "toordinal d1 - toordinal d2 = 1")
    case True
    have "streak_loop (curr_s # rest) (streak + 1)
        = streak + 1 + int (run_down (map (\<lambda>s. the (ordinal_of s)) (curr_s # rest)))"
      using "1.IH" [OF d1(1) d2(1) True] "1.prems" by simp
    then show ?thesis using True d1 d2 by simp
  next
    case False
    then show ?thesis using d1 d2 by simp
  qed
qed simp_all

lemma run_down_run:
  "sorted_wrt (\<lambda>x y. y < x) (a # rest) \<Longrightarrow>
     consecutive_run (set (a # rest)) a (Suc (run_down (a # rest)))"
proof (induction rest arbitrary: a)
  case Nil
  show ?case by (simp add: consecutive_run_def)
next
  case (Cons b r)
  have ba: "b < a" and below: "\<forall>x\<in>set r. x < b" and srt: "sorted_wrt (\<lambda>x y. y < x) (b # r)"
    using Cons.prems by auto
  let ?n = "Suc (run_down (b # r))"
  have ih: "consecutive_run (set (b # r)) b ?n" by (rule Cons.IH [OF srt])
  show ?case
  proof (cases "a - b = 1")
    case True
    have rd: "Suc (run_down (a # b # r)) = Suc ?n" using True by simp
    have all: "\<forall>k<Suc ?n. a - int k \<in> set (a # b # r)"
    proof (intro allI impI)
      fix k assume k: "k < Suc ?n"
      show "a - int k \<in> set (a # b # r)"
      proof (cases k)
        case 0
        then show ?thesis by simp
      next
        case (Suc j)
        then have "j < ?n" using k by simp
        then have "b - int j \<in> set (b # r)" using ih unfolding consecutive_run_def by blast
        moreover have "a - int k = b - int j" using True Suc by simp
        ultimately show ?thesis by simp
      qed
    qed
    have nin: "b - int ?n \<notin> set (b # r)" using ih unfolding consecutive_run_def by blast
    have eq: "a - int (Suc ?n) = b - int ?n" using True by simp
    have nea: "b - int ?n \<noteq> a" using ba by simp
    have out: "a - int (Suc ?n) \<notin> set (a # b # r)"
      unfolding eq using nin nea by (metis set_ConsD)
    show ?thesis unfolding rd consecutive_run_def using all out by blast
  next
    case False
    have rd: "Suc (run_down (a # b # r)) = 1" using False by simp
    have gap: "b < a - 1" using ba False by arith
    have "a - 1 \<notin> set (a # b # r)" using gap below by auto
    then show ?thesis unfolding rd consecutive_run_def by simp
  qed
qed

lemma unique_dates_desc:
  fixes xs :: "string list"
  shows "sorted_wrt (\<lambda>x y. y < x) (rev (sort (remdups xs)))"
  by (simp add: sorted_wrt_rev strict_sorted_iff)

lemma Max_desc:
  fixes a :: int
  assumes "sorted_wrt (\<lambda>x y. y < x) (a # rest)"
  shows "Max (set (a # rest)) = a"
proof (rule Max_eqI)
  show "finite (set (a # rest))" by simp
  show "a \<in> set (a # rest)" by simp
  fix y assume "y \<in> set (a # rest)"
  then show "y \<le> a" using assms by auto
qed

lemma ords_desc:
  assumes "sorted_wrt (\<lambda>x y. y < x) U" "\<forall>s\<in>set U. iso_date s"
  shows "sorted_wrt (\<lambda>x y. y < x) (map (\<lambda>s. the (ordinal_of s)) U)"
proof -
  have "sorted_wrt (\<lambda>x y. the (ordinal_of y) < the (ordinal_of x)) U"
  proof (rule sorted_wrt_mono_rel [OF _ assms(1)])
    fix x y assume "x \<in> set U" "y \<in> set U" "y < x"
    then show "the (ordinal_of y) < the (ordinal_of x)"
      using iso_less_ord [of y x] assms(2) by simp
  qed
  then show ?thesis by (simp add: sorted_wrt_map)
qed

lemma commit_days_eq:
  assumes "\<forall>c\<in>set cmts. iso_date (commit_date c)"
  shows "commit_days cmts
       = set (map (\<lambda>s. the (ordinal_of s)) (rev (sort (remdups (map commit_date cmts)))))"
proof -
  have some: "\<And>s. s \<in> set (map commit_date cmts) \<Longrightarrow> ordinal_of s \<noteq> None"
    using assms iso_dateD by fastforce
  have "filter (\<lambda>s. ordinal_of s \<noteq> None) (map commit_date cmts) = map commit_date cmts"
    by (rule filter_True) (use some in blast)
  then have "set (List.map_filter ordinal_of (map commit_date cmts))
      = (\<lambda>s. the (ordinal_of s)) ` set (map commit_date cmts)"
    by (simp add: List.map_filter_def comp_def image_image)
  then show ?thesis by (simp add: commit_days_def)
qed

subsection \<open>The streak\<close>

text \<open>
  Claim C7, as the code has it. \<open>today\<close> is any date after 0001-01-01 and every commit date is a
  zero-padded ISO date. With no commit the streak is 0. Otherwise let \<open>latest\<close> be
  the most recent commit day. When it is today or yesterday, the streak is the
  length of the run of consecutive commit days that ends at \<open>latest\<close>; since no
  commit day is later than \<open>latest\<close>, a run ending yesterday means there is no commit
  today. When \<open>latest\<close> is any other day, older than yesterday or later than today,
  the streak is 0.
\<close>

theorem streak_is_run_ending_at_latest_date:
  assumes v: "valid_date today" and ne: "today \<noteq> Date 1 1 1"
    and iso: "\<forall>c\<in>set cmts. iso_date (commit_date c)"
  shows "(cmts = [] \<longrightarrow> compute_streak today cmts = Returned 0)
    \<and> (cmts \<noteq> [] \<longrightarrow>
         (let D = commit_days cmts; latest = Max D; t = toordinal today
          in if latest = t \<or> latest = t - 1
             then \<exists>n. compute_streak today cmts = Returned (int n) \<and> consecutive_run D latest n
             else compute_streak today cmts = Returned 0))"
proof (intro conjI impI)
  assume "cmts = []"
  then show "compute_streak today cmts = Returned 0" by (simp add: compute_streak_def)
next
  assume nonempty: "cmts \<noteq> []"
  define U where "U = rev (sort (remdups (map commit_date cmts)))"
  have setU: "set U = commit_date ` set cmts" by (simp add: U_def)
  have isoU: "\<forall>s\<in>set U. iso_date s" using iso setU by auto
  have descU: "sorted_wrt (\<lambda>x y. y < x) U" unfolding U_def by (rule unique_dates_desc)
  obtain first others where U: "U = first # others" using nonempty setU by (cases U) auto
  define ords where "ords = map (\<lambda>s. the (ordinal_of s)) U"
  define e where "e = the (ordinal_of first)"
  have D: "commit_days cmts = set ords" unfolding ords_def U_def by (rule commit_days_eq [OF iso])
  have ords: "ords = e # map (\<lambda>s. the (ordinal_of s)) others" by (simp add: ords_def U e_def)
  have descO: "sorted_wrt (\<lambda>x y. y < x) (e # map (\<lambda>s. the (ordinal_of s)) others)"
    using ords_desc [OF descU isoU] ords by (simp add: ords_def)
  have latest: "Max (commit_days cmts) = e" unfolding D ords by (rule Max_desc [OF descO])
  have run: "consecutive_run (commit_days cmts) e (Suc (run_down ords))"
    unfolding D ords by (rule run_down_run [OF descO])
  have loop: "streak_loop U 1 = int (Suc (run_down ords))"
    using streak_loop_run [OF isoU, of 1] by (simp add: ords_def)
  obtain y where y: "minus_one_day today = Returned y" "valid_date y"
      "toordinal y = toordinal today - 1"
    using minus_one_day_ok [OF v ne] by blast
  obtain df where df: "valid_date df" "isoformat df = first" "ordinal_of first = Some (toordinal df)"
    using iso_dateD [of first] isoU U by auto
  have e: "e = toordinal df" by (simp add: e_def df)
  have t1: "first = isoformat today \<longleftrightarrow> e = toordinal today"
    using iso_eq [OF df(1) v] toordinal_inj [OF df(1) v] df(2) e by auto
  have t2: "first = isoformat y \<longleftrightarrow> e = toordinal today - 1"
    using iso_eq [OF df(1) y(2)] toordinal_inj [OF df(1) y(2)] df(2) e y(3) by auto
  have cs: "compute_streak today cmts
      = (if first \<noteq> isoformat today \<and> first \<noteq> isoformat y then Returned 0
         else Returned (streak_loop U 1))"
    using nonempty y(1) U by (simp add: compute_streak_def Let_def flip: U_def)
  show "let D = commit_days cmts; latest = Max D; t = toordinal today
          in if latest = t \<or> latest = t - 1
             then \<exists>n. compute_streak today cmts = Returned (int n) \<and> consecutive_run D latest n
             else compute_streak today cmts = Returned 0"
    unfolding Let_def latest
  proof (cases "e = toordinal today \<or> e = toordinal today - 1")
    case True
    then have "compute_streak today cmts = Returned (int (Suc (run_down ords)))"
      using cs t1 t2 loop by auto
    then have "\<exists>n. compute_streak today cmts = Returned (int n)
        \<and> consecutive_run (commit_days cmts) e n"
      using run by blast
    then show "if e = toordinal today \<or> e = toordinal today - 1
      then \<exists>n. compute_streak today cmts = Returned (int n) \<and> consecutive_run (commit_days cmts) e n
      else compute_streak today cmts = Returned 0"
      using True by (simp only: if_True)
  next
    case False
    then have "compute_streak today cmts = Returned 0"
      using cs t1 t2 by auto
    then show "if e = toordinal today \<or> e = toordinal today - 1
      then \<exists>n. compute_streak today cmts = Returned (int n) \<and> consecutive_run (commit_days cmts) e n
      else compute_streak today cmts = Returned 0"
      using False by (simp only: if_False)
  qed
qed

lemma isoformat_2024_05_15: "isoformat (Date 2024 5 15) = ''2024-05-15''"
  by code_simp

lemma isoformat_2024_05_14: "isoformat (Date 2024 5 14) = ''2024-05-14''"
  by code_simp

lemma minus_one_day_2024_05_15: "minus_one_day (Date 2024 5 15) = Returned (Date 2024 5 14)"
  by code_simp

lemma ordinal_of_2024_05_16: "ordinal_of ''2024-05-16'' = Some 739022"
  by code_simp

lemma ordinal_of_2024_05_15: "ordinal_of ''2024-05-15'' = Some 739021"
  by code_simp

lemma ordinal_of_2024_05_14: "ordinal_of ''2024-05-14'' = Some 739020"
  by code_simp

lemma ordinal_of_2024_05_12: "ordinal_of ''2024-05-12'' = Some 739018"
  by code_simp

lemma toordinal_2024_05_15: "toordinal (Date 2024 5 15) = 739021"
  by code_simp

lemma less_2_nat: "k < (2::nat) \<longleftrightarrow> k = 0 \<or> k = 1"
  by arith

text \<open>
  Claim C7 as the specification states it fails when a commit is dated after today.
  Today is 2024-05-15 and the commits are dated 2024-05-16, 2024-05-15 and
  2024-05-14: the run of consecutive commit days ending today has length 2, and
  \<^verbatim>\<open>_compute_streak\<close> returns 0, because the greatest date is neither today nor
  yesterday.
\<close>

theorem future_dated_commit_gives_streak_0:
  "compute_streak (Date 2024 5 15)
    [\<lparr>commit_id = ''a1'', timestamp = ''2024-05-16T09:00:00+00:00'', commit_date = ''2024-05-16'',
       commit_type = ''feat'', message = ''planned the trip'', scope = ''life'', details = [], tags = [],
       mood_score = 0, energy_score = 3\<rparr>,
     \<lparr>commit_id = ''a2'', timestamp = ''2024-05-15T09:00:00+00:00'', commit_date = ''2024-05-15'',
       commit_type = ''feat'', message = ''fixed the bike'', scope = ''life'', details = [], tags = [],
       mood_score = 0, energy_score = 3\<rparr>,
     \<lparr>commit_id = ''a3'', timestamp = ''2024-05-14T09:00:00+00:00'', commit_date = ''2024-05-14'',
       commit_type = ''feat'', message = ''called home'', scope = ''life'', details = [], tags = [],
       mood_score = 0, energy_score = 3\<rparr>]
   = Returned 0
   \<and> consecutive_run (commit_days
    [\<lparr>commit_id = ''a1'', timestamp = ''2024-05-16T09:00:00+00:00'', commit_date = ''2024-05-16'',
       commit_type = ''feat'', message = ''planned the trip'', scope = ''life'', details = [], tags = [],
       mood_score = 0, energy_score = 3\<rparr>,
     \<lparr>commit_id = ''a2'', timestamp = ''2024-05-15T09:00:00+00:00'', commit_date = ''2024-05-15'',
       commit_type = ''feat'', message = ''fixed the bike'', scope = ''life'', details = [], tags = [],
       mood_score = 0, energy_score = 3\<rparr>,
     \<lparr>commit_id = ''a3'', timestamp = ''2024-05-14T09:00:00+00:00'', commit_date = ''2024-05-14'',
       commit_type = ''feat'', message = ''called home'', scope = ''life'', details = [], tags = [],
       mood_score = 0, energy_score = 3\<rparr>])
      (toordinal (Date 2024 5 15)) 2"
proof -
  have s: "rev (sort (remdups [''2024-05-16'', ''2024-05-15'', ''2024-05-14'']))
      = [''2024-05-16'', ''2024-05-15'', ''2024-05-14'']"
    by code_simp
  have a: "compute_streak (Date 2024 5 15)
    [\<lparr>commit_id = ''a1'', timestamp = ''2024-05-16T09:00:00+00:00'', commit_date = ''2024-05-16'',
       commit_type = ''feat'', message = ''planned the trip'', scope = ''life'', details = [], tags = [],
       mood_score = 0, energy_score = 3\<rparr>,
     \<lparr>commit_id = ''a2'', timestamp = ''2024-05-15T09:00:00+00:00'', commit_date = ''2024-05-15'',
       commit_type = ''feat'', message = ''fixed the bike'', scope = ''life'', details = [], tags = [],
       mood_score = 0, energy_score = 3\<rparr>,
     \<lparr>commit_id = ''a3'', timestamp = ''2024-05-14T09:00:00+00:00'', commit_date = ''2024-05-14'',
       commit_type = ''feat'', message = ''called home'', scope = ''life'', details = [], tags = [],
       mood_score = 0, energy_score = 3\<rparr>]
   = Returned 0"
    by (simp add: compute_streak_def Let_def s minus_one_day_2024_05_15 isoformat_2024_05_15
        isoformat_2024_05_14)
  have d: "commit_days
    [\<lparr>commit_id = ''a1'', timestamp = ''2024-05-16T09:00:00+00:00'', commit_date = ''2024-05-16'',
       commit_type = ''feat'', message = ''planned the trip'', scope = ''life'', details = [], tags = [],
       mood_score = 0, energy_score = 3\<rparr>,
     \<lparr>commit_id = ''a2'', timestamp = ''2024-05-15T09:00:00+00:00'', commit_date = ''2024-05-15'',
       commit_type = ''feat'', message = ''fixed the bike'', scope = ''life'', details = [], tags = [],
       mood_score = 0, energy_score = 3\<rparr>,
     \<lparr>commit_id = ''a3'', timestamp = ''2024-05-14T09:00:00+00:00'', commit_date = ''2024-05-14'',
       commit_type = ''feat'', message = ''called home'', scope = ''life'', details = [], tags = [],
       mood_score = 0, energy_score = 3\<rparr>]
    = {739022, 739021, 739020}"
    by (simp add: commit_days_def List.map_filter_def ordinal_of_2024_05_16
        ordinal_of_2024_05_15 ordinal_of_2024_05_14)
  have b: "consecutive_run {739022, 739021, 739020} 739021 2"
    by (auto simp: consecutive_run_def less_2_nat)
  show ?thesis using a b by (simp only: d toordinal_2024_05_15 simp_thms)
qed

text \<open>
  A witness, the example of the specification: commits dated today (2024-05-15),
  yesterday and three days ago, none two days ago. The streak is 2, the run of
  consecutive commit days ending today.
\<close>

theorem streak_is_run_ending_at_latest_date_witness:
  "valid_date (Date 2024 5 15)
   \<and> iso_date ''2024-05-15'' \<and> iso_date ''2024-05-14'' \<and> iso_date ''2024-05-12''
   \<and> compute_streak (Date 2024 5 15)
    [\<lparr>commit_id = ''b1'', timestamp = ''2024-05-15T09:00:00+00:00'', commit_date = ''2024-05-15'',
       commit_type = ''feat'', message = ''fixed the bike'', scope = ''life'', details = [], tags = [],
       mood_score = 0, energy_score = 3\<rparr>,
     \<lparr>commit_id = ''b2'', timestamp = ''2024-05-14T09:00:00+00:00'', commit_date = ''2024-05-14'',
       commit_type = ''feat'', message = ''called home'', scope = ''life'', details = [], tags = [],
       mood_score = 0, energy_score = 3\<rparr>,
     \<lparr>commit_id = ''b3'', timestamp = ''2024-05-12T09:00:00+00:00'', commit_date = ''2024-05-12'',
       commit_type = ''feat'', message = ''read a book'', scope = ''life'', details = [], tags = [],
       mood_score = 0, energy_score = 3\<rparr>]
   = Returned 2
   \<and> consecutive_run (commit_days
    [\<lparr>commit_id = ''b1'', timestamp = ''2024-05-15T09:00:00+00:00'', commit_date = ''2024-05-15'',
       commit_type = ''feat'', message = ''fixed the bike'', scope = ''life'', details = [], tags = [],
       mood_score = 0, energy_score = 3\<rparr>,
     \<lparr>commit_id = ''b2'', timestamp = ''2024-05-14T09:00:00+00:00'', commit_date = ''2024-05-14'',
       commit_type = ''feat'', message = ''called home'', scope = ''life'', details = [], tags = [],
       mood_score = 0, energy_score = 3\<rparr>,
     \<lparr>commit_id = ''b3'', timestamp = ''2024-05-12T09:00:00+00:00'', commit_date = ''2024-05-12'',
       commit_type = ''feat'', message = ''read a book'', scope = ''life'', details = [], tags = [],
       mood_score = 0, energy_score = 3\<rparr>])
      (toordinal (Date 2024 5 15)) 2"
proof -
  let ?cmts = "[\<lparr>commit_id = ''b1'', timestamp = ''2024-05-15T09:00:00+00:00'', commit_date = ''2024-05-15'',
       commit_type = ''feat'', message = ''fixed the bike'', scope = ''life'', details = [], tags = [],
       mood_score = 0, energy_score = 3\<rparr>,
     \<lparr>commit_id = ''b2'', timestamp = ''2024-05-14T09:00:00+00:00'', commit_date = ''2024-05-14'',
       commit_type = ''feat'', message = ''called home'', scope = ''life'', details = [], tags = [],
       mood_score = 0, energy_score = 3\<rparr>,
     \<lparr>commit_id = ''b3'', timestamp = ''2024-05-12T09:00:00+00:00'', commit_date = ''2024-05-12'',
       commit_type = ''feat'', message = ''read a book'', scope = ''life'', details = [], tags = [],
       mood_score = 0, energy_score = 3\<rparr>]"
  have v: "valid_date (Date 2024 5 15)" by code_simp
  have i1: "iso_date ''2024-05-15''" by code_simp
  have i2: "iso_date ''2024-05-14''" by code_simp
  have i3: "iso_date ''2024-05-12''" by code_simp
  have iso: "\<forall>c\<in>set ?cmts. iso_date (commit_date c)" using i1 i2 i3 by simp
  have d: "commit_days ?cmts = {739021, 739020, 739018}"
    by (simp add: commit_days_def List.map_filter_def ordinal_of_2024_05_12
        ordinal_of_2024_05_15 ordinal_of_2024_05_14)
  have m: "Max (commit_days ?cmts) = toordinal (Date 2024 5 15)"
    by (simp add: d toordinal_2024_05_15)
  have "\<exists>n. compute_streak (Date 2024 5 15) ?cmts = Returned (int n)
      \<and> consecutive_run (commit_days ?cmts) (toordinal (Date 2024 5 15)) n"
    using streak_is_run_ending_at_latest_date [OF v _ iso] m by (simp add: Let_def)
  then obtain n where n: "compute_streak (Date 2024 5 15) ?cmts = Returned (int n)"
    and r: "consecutive_run (commit_days ?cmts) (toordinal (Date 2024 5 15)) n"
    by blast
  have s: "rev (sort (remdups [''2024-05-15'', ''2024-05-14'', ''2024-05-12'']))
      = [''2024-05-15'', ''2024-05-14'', ''2024-05-12'']"
    by code_simp
  have l: "streak_loop [''2024-05-15'', ''2024-05-14'', ''2024-05-12''] 1 = 2"
    by code_simp
  have "compute_streak (Date 2024 5 15) ?cmts
      = Returned (streak_loop [''2024-05-15'', ''2024-05-14'', ''2024-05-12''] 1)"
    by (simp add: compute_streak_def Let_def s minus_one_day_2024_05_15 isoformat_2024_05_15
        isoformat_2024_05_14 del: streak_loop.simps)
  then have a: "compute_streak (Date 2024 5 15) ?cmts = Returned 2"
    by (simp only: l)
  have "n = 2" using a n by simp
  then show ?thesis using v i1 i2 i3 a r by simp
qed

end
